theory Spec2Isabelle
  imports Complex_Main
begin

section \<open>Data model of codex-rotate\<close>

text \<open>
  The interfaces of \<^verbatim>\<open>packages/codex-rotate/index.ts\<close> become records. The token
  bundle's \<^verbatim>\<open>account_id\<close> keeps its name; the entry's cached copy of it is
  \<open>entry_account_id\<close>, since two records cannot share a field name.
\<close>

text \<open>
  A value as \<^verbatim>\<open>JSON.parse\<close> returns it. An object is the list of its own
  properties.
\<close>

datatype jsval =
    JNull
  | JBool bool
  | JNum real
  | JStr string
  | JArr "jsval list"
  | JObj "(string \<times> jsval) list"

record Tokens =
  id_token :: string
  access_token :: string
  refresh_token :: string
  account_id :: string

record CodexAuth =
  auth_mode :: string
  OPENAI_API_KEY :: "string option"
  tokens :: Tokens
  last_refresh :: string

text \<open>
  \<^verbatim>\<open>email\<close> and \<^verbatim>\<open>plan_type\<close> are declared \<^verbatim>\<open>string\<close> in the source, but they
  are filled by an unchecked cast of a payload field (\<^verbatim>\<open>payload.email as string\<close>), so
  at run time they hold whatever value the payload has there.
\<close>

record AccountEntry =
  label :: string
  email :: jsval
  entry_account_id :: string
  plan_type :: jsval
  auth :: CodexAuth
  added_at :: string

record Pool =
  active_index :: int
  accounts :: "AccountEntry list"

text \<open>
  The two files the tool reads and writes: \<^verbatim>\<open>POOL_FILE\<close> and \<^verbatim>\<open>CODEX_AUTH\<close>.
  A file's content is the document it holds (\<^verbatim>\<open>JSON.stringify\<close> followed by
  \<^verbatim>\<open>JSON.parse\<close> gives the document back). For the pool file \<open>None\<close> is an
  absent file. The live credential file lies in \<^verbatim>\<open>CODEX_HOME\<close>, a directory of the
  host application that the script never creates: that directory may be missing, or be
  there without the file, or hold the file.
\<close>

datatype credential_file = No_Directory | No_File | File CodexAuth

record Files =
  pool_file :: "Pool option"
  live_file :: credential_file

text \<open>
  The document of the live credential file, \<open>None\<close> when
  \<^verbatim>\<open>existsSync(CODEX_AUTH)\<close> is false; and whether its directory exists.
\<close>

definition codex_auth :: "Files \<Rightarrow> CodexAuth option" where
  "codex_auth fs =
     (case live_file fs of
        No_Directory \<Rightarrow> None
      | No_File \<Rightarrow> None
      | File a \<Rightarrow> Some a)"

definition codex_home :: "Files \<Rightarrow> bool" where
  "codex_home fs = (live_file fs \<noteq> No_Directory)"

text \<open>Exceptions thrown inside the script, and the ways a command ends the process.\<close>

datatype exn = Invalid_JWT | SyntaxError | TypeError | ENOENT

datatype failure =
    UsageError
  | AuthFileNotFound
  | NoAccounts
  | OnlyOneAccount
  | AccountNotFound
  | Uncaught exn

text \<open>The lines a command prints, each with the values interpolated into it.\<close>

datatype message =
    Info_Updated string jsval
  | Warn_AlreadyInPool string
  | Info_Added string jsval jsval nat
  | Rotated string jsval string jsval jsval int nat
  | Warn_NoAccounts
  | List_Header nat
  | List_Row bool string jsval jsval string
  | Status_Header
  | Status_ActiveInCodex jsval jsval
  | Status_AccountID string
  | Status_LastRefresh string
  | Warn_NoAuthFile
  | Status_PoolFile
  | Status_PoolSize nat
  | Status_ActiveSlot string int nat
  | Info_Removed string jsval nat

type_synonym result = "(failure + message list) \<times> Files"

section \<open>JavaScript primitives the script uses\<close>

text \<open>\<^verbatim>\<open>s.split(".")\<close>: the pieces between the dots; never the empty list.\<close>

fun split_dot :: "string \<Rightarrow> string list" where
  "split_dot [] = [[]]"
| "split_dot (c # cs) =
     (let r = split_dot cs
      in if c = CHR ''.'' then [] # r else (c # hd r) # tl r)"

text \<open>\<^verbatim>\<open>s.replaceAll(a, b)\<close> for one-character \<open>a\<close> and \<open>b\<close>.\<close>

definition replaceAll :: "char \<Rightarrow> char \<Rightarrow> string \<Rightarrow> string" where
  "replaceAll a b s = map (\<lambda>c. if c = a then b else c) s"

text \<open>
  \<^verbatim>\<open>v[k]\<close> for a parsed value \<open>v\<close> and one of the three keys the script reads
  (\<^verbatim>\<open>email\<close>, \<^verbatim>\<open>https://api.openai.com/auth\<close>, \<^verbatim>\<open>chatgpt_plan_type\<close>; none of them
  is inherited from a prototype): \<open>Inr None\<close> is \<^verbatim>\<open>undefined\<close>, and reading a
  property of \<^verbatim>\<open>null\<close> throws.
\<close>

fun get_prop :: "jsval \<Rightarrow> string \<Rightarrow> exn + jsval option" where
  "get_prop JNull k = Inl TypeError"
| "get_prop (JObj kvs) k = Inr (map_of kvs k)"
| "get_prop v k = Inr None"

text \<open>\<^verbatim>\<open>v?.[k]\<close>: \<^verbatim>\<open>undefined\<close> when \<open>v\<close> is \<^verbatim>\<open>undefined\<close> or \<^verbatim>\<open>null\<close>.\<close>

fun opt_chain :: "jsval option \<Rightarrow> string \<Rightarrow> exn + jsval option" where
  "opt_chain None k = Inr None"
| "opt_chain (Some JNull) k = Inr None"
| "opt_chain (Some v) k = get_prop v k"

text \<open>\<^verbatim>\<open>v ?? d\<close>.\<close>

fun nullish :: "jsval option \<Rightarrow> jsval \<Rightarrow> jsval" where
  "nullish None d = d"
| "nullish (Some JNull) d = d"
| "nullish (Some v) d = v"

text \<open>\<^verbatim>\<open>xs[i]\<close> for an integer \<open>i\<close>: \<open>None\<close> is \<^verbatim>\<open>undefined\<close>.\<close>

definition at_index :: "'a list \<Rightarrow> int \<Rightarrow> 'a option" where
  "at_index xs i = (if 0 \<le> i \<and> i < int (length xs) then Some (xs ! nat i) else None)"

text \<open>
  \<^verbatim>\<open>a % b\<close> on integers: the remainder takes the sign of the dividend. The script
  divides by the pool size only after it has checked that the pool has two entries or
  more.
\<close>

definition js_rem :: "int \<Rightarrow> int \<Rightarrow> int" where
  "js_rem a b = sgn a * (\<bar>a\<bar> mod \<bar>b\<bar>)"

text \<open>\<^verbatim>\<open>xs.findIndex(P)\<close>: \<open>None\<close> is the script's \<^verbatim>\<open>-1\<close>.\<close>

fun findIndex :: "('a \<Rightarrow> bool) \<Rightarrow> 'a list \<Rightarrow> nat option" where
  "findIndex P [] = None"
| "findIndex P (x # xs) = (if P x then Some 0 else map_option Suc (findIndex P xs))"

section \<open>Token inspector\<close>

text \<open>
  \<^verbatim>\<open>Buffer.from(payload, "base64").toString("utf-8")\<close> and \<^verbatim>\<open>JSON.parse\<close> belong to
  the runtime, not to the repository: they are the parameters \<open>b64dec\<close> (total: the
  runtime's decoder skips what it cannot read) and \<open>parse\<close> (\<open>None\<close> when it throws).
\<close>

definition decodeJwtPayload ::
  "(string \<Rightarrow> string) \<Rightarrow> (string \<Rightarrow> jsval option) \<Rightarrow> string \<Rightarrow> exn + jsval" where
  "decodeJwtPayload b64dec parse jwt =
     (let parts = split_dot jwt
      in if length parts \<noteq> 3 then Inl Invalid_JWT
         else
           let payload = replaceAll (CHR ''_'') (CHR ''/'') (replaceAll (CHR ''-'') (CHR ''+'') (parts ! 1));
               json = b64dec payload
           in case parse json of None \<Rightarrow> Inl SyntaxError | Some v \<Rightarrow> Inr v)"

definition extractEmailFromAuth ::
  "(string \<Rightarrow> string) \<Rightarrow> (string \<Rightarrow> jsval option) \<Rightarrow> CodexAuth \<Rightarrow> jsval" where
  "extractEmailFromAuth b64dec parse a =
     (case decodeJwtPayload b64dec parse (id_token (tokens a)) of
        Inl _ \<Rightarrow> JStr ''unknown''
      | Inr payload \<Rightarrow>
          (case get_prop payload ''email'' of
             Inl _ \<Rightarrow> JStr ''unknown''
           | Inr v \<Rightarrow> nullish v (JStr ''unknown'')))"

definition extractPlanFromAuth ::
  "(string \<Rightarrow> string) \<Rightarrow> (string \<Rightarrow> jsval option) \<Rightarrow> CodexAuth \<Rightarrow> jsval" where
  "extractPlanFromAuth b64dec parse a =
     (case decodeJwtPayload b64dec parse (id_token (tokens a)) of
        Inl _ \<Rightarrow> JStr ''unknown''
      | Inr payload \<Rightarrow>
          (case get_prop payload ''https://api.openai.com/auth'' of
             Inl _ \<Rightarrow> JStr ''unknown''
           | Inr authInfo \<Rightarrow>
               (case opt_chain authInfo ''chatgpt_plan_type'' of
                  Inl _ \<Rightarrow> JStr ''unknown''
                | Inr v \<Rightarrow> nullish v (JStr ''unknown''))))"

section \<open>Pool I/O\<close>

text \<open>
  \<^verbatim>\<open>savePool\<close> also creates the directory of the pool file when it is missing; the
  directory holds nothing but that file, so it is not part of the state.
\<close>

definition loadPool :: "Files \<Rightarrow> Pool" where
  "loadPool fs =
     (case pool_file fs of
        None \<Rightarrow> \<lparr>active_index = 0, accounts = []\<rparr>
      | Some p \<Rightarrow> p)"

definition savePool :: "Pool \<Rightarrow> Files \<Rightarrow> Files" where
  "savePool pool fs = fs\<lparr>pool_file := Some pool\<rparr>"

definition loadCodexAuth :: "Files \<Rightarrow> failure + CodexAuth" where
  "loadCodexAuth fs =
     (case codex_auth fs of
        None \<Rightarrow> Inl AuthFileNotFound
      | Some a \<Rightarrow> Inr a)"

text \<open>
  \<^verbatim>\<open>writeCodexAuth\<close> is a bare \<^verbatim>\<open>writeFileSync\<close>: unlike \<^verbatim>\<open>savePool\<close> it makes
  no directory, and the write throws \<^verbatim>\<open>ENOENT\<close> when the directory of the live
  credential file is missing.
\<close>

definition writeCodexAuth :: "CodexAuth \<Rightarrow> Files \<Rightarrow> exn + Files" where
  "writeCodexAuth a fs =
     (if codex_home fs then Inr (fs\<lparr>live_file := File a\<rparr>) else Inl ENOENT)"

section \<open>Commands\<close>

text \<open>
  A command takes the files as it finds them and returns how it ended (\<open>Inl\<close>: the
  process died; \<open>Inr\<close>: it returned, with the lines it printed) together with the
  files as it leaves them. \<open>now\<close> is \<^verbatim>\<open>new Date().toISOString()\<close>.
\<close>

definition cmdAdd ::
  "(string \<Rightarrow> string) \<Rightarrow> (string \<Rightarrow> jsval option) \<Rightarrow> string \<Rightarrow> string \<Rightarrow> Files \<Rightarrow> result" where
  "cmdAdd b64dec parse now lbl fs =
     (if lbl = [] then (Inl UsageError, fs)
      else
        case loadCodexAuth fs of
          Inl e \<Rightarrow> (Inl e, fs)
        | Inr a \<Rightarrow>
            let pool = loadPool fs
            in (case findIndex (\<lambda>x. label x = lbl) (accounts pool) of
                 Some existing \<Rightarrow>
                   let entry = (accounts pool ! existing)
                         \<lparr>auth := a,
                          email := extractEmailFromAuth b64dec parse a,
                          plan_type := extractPlanFromAuth b64dec parse a,
                          entry_account_id := account_id (tokens a)\<rparr>;
                       pool1 = pool\<lparr>accounts := (accounts pool)[existing := entry],
                                    active_index := int existing\<rparr>
                   in (Inr [Info_Updated lbl (email entry)], savePool pool1 fs)
               | None \<Rightarrow>
                   (case findIndex (\<lambda>x. account_id (tokens (auth x)) = account_id (tokens a))
                           (accounts pool) of
                      Some d \<Rightarrow>
                        let dupAcct = (accounts pool ! d)
                              \<lparr>auth := a,
                               email := extractEmailFromAuth b64dec parse a,
                               plan_type := extractPlanFromAuth b64dec parse a\<rparr>;
                            pool1 = pool\<lparr>accounts := (accounts pool)[d := dupAcct]\<rparr>
                        in (Inr [Warn_AlreadyInPool (label (accounts pool ! d))], savePool pool1 fs)
                    | None \<Rightarrow>
                        let entry = \<lparr>label = lbl,
                                     email = extractEmailFromAuth b64dec parse a,
                                     entry_account_id = account_id (tokens a),
                                     plan_type = extractPlanFromAuth b64dec parse a,
                                     auth = a,
                                     added_at = now\<rparr>;
                            pool1 = pool\<lparr>accounts := accounts pool @ [entry]\<rparr>;
                            pool2 = pool1\<lparr>active_index := int (length (accounts pool1)) - 1\<rparr>
                        in (Inr [Info_Added lbl (email entry) (plan_type entry)
                                   (length (accounts pool2))],
                            savePool pool2 fs))))"

text \<open>
  \<^verbatim>\<open>existsSync(CODEX_AUTH)\<close> followed by \<^verbatim>\<open>loadCodexAuth()\<close> is the case
  distinction on the live file. \<^verbatim>\<open>next.auth\<close> and \<^verbatim>\<open>prev.label\<close> throw when the
  entry is \<^verbatim>\<open>undefined\<close>; the second one throws after both files were written. A
  throw of \<^verbatim>\<open>writeCodexAuth\<close> ends the process before the pool is saved.
\<close>

definition cmdNext :: "Files \<Rightarrow> result" where
  "cmdNext fs =
     (let pool = loadPool fs
      in if length (accounts pool) = 0 then (Inl NoAccounts, fs)
         else if length (accounts pool) = 1 then (Inl OnlyOneAccount, fs)
         else
           let pool1 =
                 (case codex_auth fs of
                    None \<Rightarrow> pool
                  | Some currentAuth \<Rightarrow>
                      (case at_index (accounts pool) (active_index pool) of
                         None \<Rightarrow> pool
                       | Some activeAccount \<Rightarrow>
                           if account_id (tokens (auth activeAccount)) = account_id (tokens currentAuth)
                           then pool\<lparr>accounts :=
                                  (accounts pool)[nat (active_index pool) :=
                                     activeAccount\<lparr>auth := currentAuth\<rparr>]\<rparr>
                           else pool));
               prevIndex = active_index pool1;
               pool2 = pool1\<lparr>active_index :=
                         js_rem (active_index pool1 + 1) (int (length (accounts pool1)))\<rparr>
           in case at_index (accounts pool2) (active_index pool2) of
                None \<Rightarrow> (Inl (Uncaught TypeError), fs)
              | Some next \<Rightarrow>
                  (case writeCodexAuth (auth next) fs of
                     Inl e \<Rightarrow> (Inl (Uncaught e), fs)
                   | Inr fs1 \<Rightarrow>
                       let fs2 = savePool pool2 fs1
                       in (case at_index (accounts pool2) prevIndex of
                             None \<Rightarrow> (Inl (Uncaught TypeError), fs2)
                           | Some prev \<Rightarrow>
                               (Inr [Rotated (label prev) (email prev) (label next) (email next)
                                       (plan_type next) (active_index pool2 + 1)
                                       (length (accounts pool2))],
                                fs2))))"

definition cmdPrev :: "Files \<Rightarrow> result" where
  "cmdPrev fs =
     (let pool = loadPool fs
      in if length (accounts pool) = 0 then (Inl NoAccounts, fs)
         else if length (accounts pool) = 1 then (Inl OnlyOneAccount, fs)
         else
           let pool1 =
                 (case codex_auth fs of
                    None \<Rightarrow> pool
                  | Some currentAuth \<Rightarrow>
                      (case at_index (accounts pool) (active_index pool) of
                         None \<Rightarrow> pool
                       | Some activeAccount \<Rightarrow>
                           if account_id (tokens (auth activeAccount)) = account_id (tokens currentAuth)
                           then pool\<lparr>accounts :=
                                  (accounts pool)[nat (active_index pool) :=
                                     activeAccount\<lparr>auth := currentAuth\<rparr>]\<rparr>
                           else pool));
               prevIndex = active_index pool1;
               pool2 = pool1\<lparr>active_index :=
                         js_rem (active_index pool1 - 1 + int (length (accounts pool1)))
                           (int (length (accounts pool1)))\<rparr>
           in case at_index (accounts pool2) (active_index pool2) of
                None \<Rightarrow> (Inl (Uncaught TypeError), fs)
              | Some next \<Rightarrow>
                  (case writeCodexAuth (auth next) fs of
                     Inl e \<Rightarrow> (Inl (Uncaught e), fs)
                   | Inr fs1 \<Rightarrow>
                       let fs2 = savePool pool2 fs1
                       in (case at_index (accounts pool2) prevIndex of
                             None \<Rightarrow> (Inl (Uncaught TypeError), fs2)
                           | Some prev \<Rightarrow>
                               (Inr [Rotated (label prev) (email prev) (label next) (email next)
                                       (plan_type next) (active_index pool2 + 1)
                                       (length (accounts pool2))],
                                fs2))))"

definition cmdList :: "Files \<Rightarrow> result" where
  "cmdList fs =
     (let pool = loadPool fs
      in if length (accounts pool) = 0 then (Inr [Warn_NoAccounts], fs)
         else
           (Inr (List_Header (length (accounts pool)) #
                 map (\<lambda>i. let a = accounts pool ! i;
                              isActive = (int i = active_index pool)
                          in List_Row isActive (label a) (email a) (plan_type a)
                               (take 8 (entry_account_id a)))
                   [0 ..< length (accounts pool)]),
            fs))"

definition cmdStatus ::
  "(string \<Rightarrow> string) \<Rightarrow> (string \<Rightarrow> jsval option) \<Rightarrow> Files \<Rightarrow> result" where
  "cmdStatus b64dec parse fs =
     (let pool = loadPool fs;
          out1 = Status_Header #
            (case codex_auth fs of
               Some a \<Rightarrow>
                 [Status_ActiveInCodex (extractEmailFromAuth b64dec parse a)
                    (extractPlanFromAuth b64dec parse a),
                  Status_AccountID (account_id (tokens a)),
                  Status_LastRefresh (last_refresh a)]
             | None \<Rightarrow> [Warn_NoAuthFile]);
          out2 = out1 @ [Status_PoolFile, Status_PoolSize (length (accounts pool))]
      in if length (accounts pool) > 0
         then (case at_index (accounts pool) (active_index pool) of
                 None \<Rightarrow> (Inl (Uncaught TypeError), fs)
               | Some active \<Rightarrow>
                   (Inr (out2 @ [Status_ActiveSlot (label active) (active_index pool + 1)
                                   (length (accounts pool))]),
                    fs))
         else (Inr out2, fs))"

definition cmdRemove :: "string \<Rightarrow> Files \<Rightarrow> result" where
  "cmdRemove lbl fs =
     (if lbl = [] then (Inl UsageError, fs)
      else
        let pool = loadPool fs
        in case findIndex (\<lambda>x. label x = lbl) (accounts pool) of
             None \<Rightarrow> (Inl AccountNotFound, fs)
           | Some idx \<Rightarrow>
               let removed = accounts pool ! idx;
                   pool1 = pool\<lparr>accounts := take idx (accounts pool) @ drop (Suc idx) (accounts pool)\<rparr>;
                   pool2 = (if length (accounts pool1) = 0
                               \<or> active_index pool1 \<ge> int (length (accounts pool1))
                            then pool1\<lparr>active_index := 0\<rparr> else pool1)
               in (Inr [Info_Removed (label removed) (email removed) (length (accounts pool2))],
                   savePool pool2 fs))"

text \<open>
  The invariant of the data model: the active index points into a non-empty pool, and
  is 0 in an empty one.
\<close>

definition pool_ok :: "Pool \<Rightarrow> bool" where
  "pool_ok pool =
     (if accounts pool = [] then active_index pool = 0
      else 0 \<le> active_index pool \<and> active_index pool < int (length (accounts pool)))"

section \<open>The two halves of a rotation\<close>

text \<open>
  Names for the two blocks that \<open>cmdNext\<close> and \<open>cmdPrev\<close> have in common, for the
  proofs: the write-back of the live credential into the active slot (lines 196-202
  and 226-232), and what follows the computation of the new index (the two writes and
  the report).
\<close>

definition save_current_auth :: "Files \<Rightarrow> Pool \<Rightarrow> Pool" where
  "save_current_auth fs pool =
     (case codex_auth fs of
        None \<Rightarrow> pool
      | Some currentAuth \<Rightarrow>
          (case at_index (accounts pool) (active_index pool) of
             None \<Rightarrow> pool
           | Some activeAccount \<Rightarrow>
               if account_id (tokens (auth activeAccount)) = account_id (tokens currentAuth)
               then pool\<lparr>accounts :=
                      (accounts pool)[nat (active_index pool) := activeAccount\<lparr>auth := currentAuth\<rparr>]\<rparr>
               else pool))"

definition rotate_to :: "int \<Rightarrow> Pool \<Rightarrow> Files \<Rightarrow> result" where
  "rotate_to new_index pool fs =
     (let prevIndex = active_index pool;
          pool2 = pool\<lparr>active_index := new_index\<rparr>
      in case at_index (accounts pool2) (active_index pool2) of
           None \<Rightarrow> (Inl (Uncaught TypeError), fs)
         | Some next \<Rightarrow>
             (case writeCodexAuth (auth next) fs of
                Inl e \<Rightarrow> (Inl (Uncaught e), fs)
              | Inr fs1 \<Rightarrow>
                  let fs2 = savePool pool2 fs1
                  in (case at_index (accounts pool2) prevIndex of
                        None \<Rightarrow> (Inl (Uncaught TypeError), fs2)
                      | Some prev \<Rightarrow>
                          (Inr [Rotated (label prev) (email prev) (label next) (email next)
                                  (plan_type next) (active_index pool2 + 1)
                                  (length (accounts pool2))],
                           fs2))))"

section \<open>Example states\<close>

text \<open>
  A stand-in for the runtime's decoder and parser (the decoder returns its argument, the
  parser knows two documents), credentials, and a pool of three accounts with the live
  credential file as given (\<open>None\<close>: its directory is there, the file is not).
\<close>

definition ex_b64 :: "string \<Rightarrow> string" where
  "ex_b64 s = s"

definition ex_parse :: "string \<Rightarrow> jsval option" where
  "ex_parse s =
     (if s = ''{}'' then Some (JObj [])
      else if s = ''null'' then Some JNull
      else None)"

definition ex_auth_with_token :: "string \<Rightarrow> CodexAuth" where
  "ex_auth_with_token t =
     \<lparr>auth_mode = ''chatgpt'', OPENAI_API_KEY = None,
      tokens = \<lparr>id_token = t, access_token = ''a'', refresh_token = ''r'',
                account_id = ''acct-1''\<rparr>,
      last_refresh = ''2025-01-01''\<rparr>"

definition ex_auth :: "string \<Rightarrow> string \<Rightarrow> CodexAuth" where
  "ex_auth acct access =
     \<lparr>auth_mode = ''chatgpt'', OPENAI_API_KEY = None,
      tokens = \<lparr>id_token = ''h.{}.s'', access_token = access, refresh_token = ''r'',
                account_id = acct\<rparr>,
      last_refresh = ''2025-01-01''\<rparr>"

definition ex_entry :: "string \<Rightarrow> CodexAuth \<Rightarrow> AccountEntry" where
  "ex_entry lbl a =
     \<lparr>label = lbl, email = JStr ''unknown'', entry_account_id = account_id (tokens a),
      plan_type = JStr ''unknown'', auth = a, added_at = ''2025-01-01''\<rparr>"

definition ex_accounts :: "AccountEntry list" where
  "ex_accounts =
     [ex_entry ''personal'' (ex_auth ''acct-1'' ''old''),
      ex_entry ''work'' (ex_auth ''acct-2'' ''w''),
      ex_entry ''spare'' (ex_auth ''acct-3'' ''s'')]"

definition ex_files :: "int \<Rightarrow> CodexAuth option \<Rightarrow> Files" where
  "ex_files i live =
     \<lparr>pool_file = Some \<lparr>active_index = i, accounts = ex_accounts\<rparr>,
      live_file = (case live of None \<Rightarrow> No_File | Some a \<Rightarrow> File a)\<rparr>"

text \<open>The same pool where the directory of the live credential file is missing.\<close>

definition ex_files_no_directory :: "int \<Rightarrow> Files" where
  "ex_files_no_directory i =
     \<lparr>pool_file = Some \<lparr>active_index = i, accounts = ex_accounts\<rparr>,
      live_file = No_Directory\<rparr>"

section \<open>Basic facts\<close>

lemma findIndex_Some:
  "findIndex P xs = Some i \<Longrightarrow> i < length xs \<and> P (xs ! i) \<and> (\<forall>j<i. \<not> P (xs ! j))"
proof (induction xs arbitrary: i)
  case Nil
  then show ?case by simp
next
  case (Cons x xs)
  show ?case
  proof (cases "P x")
    case True
    with Cons.prems show ?thesis by simp
  next
    case False
    with Cons.prems obtain k where k: "findIndex P xs = Some k" "i = Suc k"
      by auto
    from Cons.IH[OF k(1)] False k(2) show ?thesis
      by (auto simp: nth_Cons split: nat.splits)
  qed
qed

lemma findIndex_None: "findIndex P xs = None \<longleftrightarrow> (\<forall>x\<in>set xs. \<not> P x)"
  by (induction xs) auto

lemma js_rem_nonneg: "0 \<le> a \<Longrightarrow> js_rem a b = a mod \<bar>b\<bar>"
  by (cases "a = 0") (simp_all add: js_rem_def)

lemma codex_auth_pool_file [simp]: "codex_auth (fs\<lparr>pool_file := p\<rparr>) = codex_auth fs"
  by (simp add: codex_auth_def)

lemma codex_home_pool_file [simp]: "codex_home (fs\<lparr>pool_file := p\<rparr>) = codex_home fs"
  by (simp add: codex_home_def)

lemma live_file_written [simp]:
  "codex_auth (fs\<lparr>live_file := File a\<rparr>) = Some a"
  "codex_home (fs\<lparr>live_file := File a\<rparr>)"
  by (simp_all add: codex_auth_def codex_home_def)

text \<open>A file that is there has its directory.\<close>

lemma codex_auth_home: "codex_auth fs = Some a \<Longrightarrow> codex_home fs"
  by (cases "live_file fs") (simp_all add: codex_auth_def codex_home_def)

lemma cmdNext_rotate:
  "cmdNext fs =
     (let pool = loadPool fs
      in if length (accounts pool) = 0 then (Inl NoAccounts, fs)
         else if length (accounts pool) = 1 then (Inl OnlyOneAccount, fs)
         else
           let pool1 = save_current_auth fs pool
           in rotate_to (js_rem (active_index pool1 + 1) (int (length (accounts pool1)))) pool1 fs)"
  by (simp add: cmdNext_def save_current_auth_def rotate_to_def Let_def)

lemma cmdPrev_rotate:
  "cmdPrev fs =
     (let pool = loadPool fs
      in if length (accounts pool) = 0 then (Inl NoAccounts, fs)
         else if length (accounts pool) = 1 then (Inl OnlyOneAccount, fs)
         else
           let pool1 = save_current_auth fs pool
           in rotate_to
                (js_rem (active_index pool1 - 1 + int (length (accounts pool1)))
                   (int (length (accounts pool1))))
                pool1 fs)"
  by (simp add: cmdPrev_def save_current_auth_def rotate_to_def Let_def)

lemma save_current_auth_length [simp]:
  "length (accounts (save_current_auth fs pool)) = length (accounts pool)"
  by (simp add: save_current_auth_def split: option.splits)

lemma save_current_auth_index [simp]:
  "active_index (save_current_auth fs pool) = active_index pool"
  by (simp add: save_current_auth_def split: option.splits)

lemma save_current_auth_absent [simp]:
  "codex_auth fs = None \<Longrightarrow> save_current_auth fs pool = pool"
  by (simp add: save_current_auth_def)

text \<open>
  A rotation from an index in range to an index in range, with the directory of the
  live credential file there: both writes, no throw.
\<close>

lemma rotate_to_in_range:
  assumes "0 \<le> active_index pool" "active_index pool < int (length (accounts pool))"
    and "0 \<le> j" "j < int (length (accounts pool))"
    and "codex_home fs"
  shows "\<exists>out. fst (rotate_to j pool fs) = Inr out"
    and "pool_file (snd (rotate_to j pool fs)) = Some (pool\<lparr>active_index := j\<rparr>)"
    and "codex_auth (snd (rotate_to j pool fs)) = Some (auth (accounts pool ! nat j))"
  using assms
  by (simp_all add: rotate_to_def Let_def at_index_def savePool_def writeCodexAuth_def)

text \<open>With that directory missing the write throws, and nothing is written.\<close>

lemma rotate_to_no_directory:
  assumes "0 \<le> j" "j < int (length (accounts pool))"
    and "\<not> codex_home fs"
  shows "rotate_to j pool fs = (Inl (Uncaught ENOENT), fs)"
  using assms
  by (simp add: rotate_to_def Let_def at_index_def writeCodexAuth_def)

lemma cmdNext_in_range:
  assumes "2 \<le> length (accounts (loadPool fs))"
    and "0 \<le> active_index (loadPool fs)"
    and "active_index (loadPool fs) < int (length (accounts (loadPool fs)))"
    and "codex_home fs"
  shows "\<exists>out. fst (cmdNext fs) = Inr out"
    and "pool_file (snd (cmdNext fs)) =
      Some ((save_current_auth fs (loadPool fs))
        \<lparr>active_index := (active_index (loadPool fs) + 1) mod int (length (accounts (loadPool fs)))\<rparr>)"
    and "codex_auth (snd (cmdNext fs)) =
      Some (auth (accounts (save_current_auth fs (loadPool fs)) !
        nat ((active_index (loadPool fs) + 1) mod int (length (accounts (loadPool fs))))))"
proof -
  let ?p = "save_current_auth fs (loadPool fs)"
  let ?j = "(active_index (loadPool fs) + 1) mod int (length (accounts (loadPool fs)))"
  have j: "js_rem (active_index ?p + 1) (int (length (accounts ?p))) = ?j"
    using assms by (simp add: js_rem_nonneg)
  have eq: "cmdNext fs = rotate_to ?j ?p fs"
  proof -
    from assms(1) have "accounts (loadPool fs) \<noteq> []" "length (accounts (loadPool fs)) \<noteq> 1"
      by auto
    then show ?thesis
      unfolding cmdNext_rotate Let_def j by simp
  qed
  have r: "0 \<le> active_index ?p" "active_index ?p < int (length (accounts ?p))"
    using assms(2,3) by simp_all
  have pos: "0 < int (length (accounts (loadPool fs)))"
    using assms(1) by linarith
  have r': "0 \<le> ?j" "?j < int (length (accounts ?p))"
    using pos_mod_sign[OF pos] pos_mod_bound[OF pos] by simp_all
  note r = r r' assms(4)
  show "\<exists>out. fst (cmdNext fs) = Inr out"
    unfolding eq by (rule rotate_to_in_range(1)[OF r])
  show "pool_file (snd (cmdNext fs)) = Some (?p\<lparr>active_index := ?j\<rparr>)"
    unfolding eq by (rule rotate_to_in_range(2)[OF r])
  show "codex_auth (snd (cmdNext fs)) = Some (auth (accounts ?p ! nat ?j))"
    unfolding eq by (rule rotate_to_in_range(3)[OF r])
qed

lemma cmdPrev_in_range:
  assumes "2 \<le> length (accounts (loadPool fs))"
    and "0 \<le> active_index (loadPool fs)"
    and "active_index (loadPool fs) < int (length (accounts (loadPool fs)))"
    and "codex_home fs"
  shows "\<exists>out. fst (cmdPrev fs) = Inr out"
    and "pool_file (snd (cmdPrev fs)) =
      Some ((save_current_auth fs (loadPool fs))
        \<lparr>active_index := (active_index (loadPool fs) - 1) mod int (length (accounts (loadPool fs)))\<rparr>)"
    and "codex_auth (snd (cmdPrev fs)) =
      Some (auth (accounts (save_current_auth fs (loadPool fs)) !
        nat ((active_index (loadPool fs) - 1) mod int (length (accounts (loadPool fs))))))"
proof -
  let ?p = "save_current_auth fs (loadPool fs)"
  let ?j = "(active_index (loadPool fs) - 1) mod int (length (accounts (loadPool fs)))"
  have j: "js_rem (active_index ?p - 1 + int (length (accounts ?p))) (int (length (accounts ?p))) = ?j"
    using assms by (simp add: js_rem_nonneg)
  have eq: "cmdPrev fs = rotate_to ?j ?p fs"
  proof -
    from assms(1) have "accounts (loadPool fs) \<noteq> []" "length (accounts (loadPool fs)) \<noteq> 1"
      by auto
    then show ?thesis
      unfolding cmdPrev_rotate Let_def j by simp
  qed
  have r: "0 \<le> active_index ?p" "active_index ?p < int (length (accounts ?p))"
    using assms(2,3) by simp_all
  have pos: "0 < int (length (accounts (loadPool fs)))"
    using assms(1) by linarith
  have r': "0 \<le> ?j" "?j < int (length (accounts ?p))"
    using pos_mod_sign[OF pos] pos_mod_bound[OF pos] by simp_all
  note r = r r' assms(4)
  show "\<exists>out. fst (cmdPrev fs) = Inr out"
    unfolding eq by (rule rotate_to_in_range(1)[OF r])
  show "pool_file (snd (cmdPrev fs)) = Some (?p\<lparr>active_index := ?j\<rparr>)"
    unfolding eq by (rule rotate_to_in_range(2)[OF r])
  show "codex_auth (snd (cmdPrev fs)) = Some (auth (accounts ?p ! nat ?j))"
    unfolding eq by (rule rotate_to_in_range(3)[OF r])
qed

lemma save_current_auth_Nil [simp]:
  "accounts (save_current_auth fs pool) = [] \<longleftrightarrow> accounts pool = []"
  using save_current_auth_length[of fs pool] by (simp only: length_0_conv[symmetric])

lemma loadPool_after: "pool_file fs' = Some p \<Longrightarrow> loadPool fs' = p"
  by (simp add: loadPool_def)

lemma loadPool_update [simp]: "loadPool (fs\<lparr>pool_file := Some p\<rparr>) = p"
  by (simp add: loadPool_def)

lemma findIndex_found: "\<exists>x\<in>set xs. P x \<Longrightarrow> \<exists>i. findIndex P xs = Some i"
  using findIndex_None[of P xs] by (cases "findIndex P xs") auto

lemma map_update_same:
  "d < length xs \<Longrightarrow> f y = f (xs ! d) \<Longrightarrow> map f (xs[d := y]) = map f xs"
  by (simp add: list_eq_iff_nth_eq nth_list_update)

text \<open>A command that returned, as the pair of its printed lines and its files.\<close>

lemma returned_eq: "\<not> isl (fst r) \<Longrightarrow> r = (Inr (projr (fst r)), snd r)"
  by (cases r; cases "fst r") auto

text \<open>The example pool, loaded.\<close>

lemma ex_files_loaded:
  "loadPool (ex_files i live) = \<lparr>active_index = i, accounts = ex_accounts\<rparr>"
  "codex_auth (ex_files i live) = live"
  "codex_home (ex_files i live)"
  "length ex_accounts = 3"
  by (simp_all add: loadPool_def codex_auth_def codex_home_def ex_files_def ex_accounts_def
      split: option.splits)

lemma ex_files_no_directory_loaded:
  "loadPool (ex_files_no_directory i) = \<lparr>active_index = i, accounts = ex_accounts\<rparr>"
  "codex_auth (ex_files_no_directory i) = None"
  "\<not> codex_home (ex_files_no_directory i)"
  by (simp_all add: loadPool_def codex_auth_def codex_home_def ex_files_no_directory_def)

section \<open>Token inspector: decode failures\<close>

text \<open>
  C7. Whenever the identity token does not decode, both \<open>extractEmailFromAuth\<close> and
  \<open>extractPlanFromAuth\<close> return \<open>"unknown"\<close>: when the token does not split into
  exactly three segments, or the decoded middle segment does not parse; and each of
  them returns \<open>"unknown"\<close> when the payload parses but the field it reads is not
  there (the \<open>email\<close> field; the \<open>https://api.openai.com/auth\<close> field, or the
  \<open>chatgpt_plan_type\<close> field inside it). Both are total functions into values: no
  exception leaves them.
\<close>

theorem extract_unknown_on_decode_failure:
  "(length (split_dot (id_token (tokens a))) \<noteq> 3
      \<or> parse (b64dec (replaceAll (CHR ''_'') (CHR ''/'') (replaceAll (CHR ''-'') (CHR ''+'')
            (split_dot (id_token (tokens a)) ! 1)))) = None
    \<longrightarrow> extractEmailFromAuth b64dec parse a = JStr ''unknown''
      \<and> extractPlanFromAuth b64dec parse a = JStr ''unknown'')
   \<and> (\<forall>payload. decodeJwtPayload b64dec parse (id_token (tokens a)) = Inr payload
        \<and> (\<forall>v. get_prop payload ''email'' \<noteq> Inr (Some v))
      \<longrightarrow> extractEmailFromAuth b64dec parse a = JStr ''unknown'')
   \<and> (\<forall>payload. decodeJwtPayload b64dec parse (id_token (tokens a)) = Inr payload
        \<and> (\<forall>v. get_prop payload ''https://api.openai.com/auth'' \<noteq> Inr (Some v))
      \<longrightarrow> extractPlanFromAuth b64dec parse a = JStr ''unknown'')
   \<and> (\<forall>payload authInfo. decodeJwtPayload b64dec parse (id_token (tokens a)) = Inr payload
        \<and> get_prop payload ''https://api.openai.com/auth'' = Inr (Some authInfo)
        \<and> (\<forall>v. get_prop authInfo ''chatgpt_plan_type'' \<noteq> Inr (Some v))
      \<longrightarrow> extractPlanFromAuth b64dec parse a = JStr ''unknown'')"
proof -
  have fails: "extractEmailFromAuth b64dec parse a = JStr ''unknown''
      \<and> extractPlanFromAuth b64dec parse a = JStr ''unknown''"
    if "length (split_dot (id_token (tokens a))) \<noteq> 3
      \<or> parse (b64dec (replaceAll (CHR ''_'') (CHR ''/'') (replaceAll (CHR ''-'') (CHR ''+'')
            (split_dot (id_token (tokens a)) ! 1)))) = None"
  proof -
    from that have "\<exists>e. decodeJwtPayload b64dec parse (id_token (tokens a)) = Inl e"
      by (cases "length (split_dot (id_token (tokens a))) = 3")
         (auto simp: decodeJwtPayload_def Let_def)
    then show ?thesis
      by (auto simp: extractEmailFromAuth_def extractPlanFromAuth_def)
  qed
  have absent: "nullish r (JStr ''unknown'') = JStr ''unknown''" if "\<forall>v. r \<noteq> Some v" for r
    using that by (cases r) auto
  have get_absent:
    "(case get_prop p k of Inl _ \<Rightarrow> JStr ''unknown'' | Inr v \<Rightarrow> nullish v (JStr ''unknown''))
      = JStr ''unknown''"
    if "\<forall>v. get_prop p k \<noteq> Inr (Some v)" for p k
    using that absent by (cases "get_prop p k") auto
  have chain_absent:
    "(case opt_chain (Some ai) k of Inl _ \<Rightarrow> JStr ''unknown'' | Inr v \<Rightarrow> nullish v (JStr ''unknown''))
      = JStr ''unknown''"
    if "\<forall>v. get_prop ai k \<noteq> Inr (Some v)" for ai k
    using that get_absent[of ai k] by (cases ai) auto
  have chain_none:
    "(case opt_chain r k of Inl _ \<Rightarrow> JStr ''unknown'' | Inr v \<Rightarrow> nullish v (JStr ''unknown''))
      = JStr ''unknown''"
    if "\<forall>v. r \<noteq> Some v" for r k
    using that by (cases r) auto
  show ?thesis
    using fails
    apply (intro conjI allI impI)
    subgoal by blast
    subgoal by blast
    subgoal for payload by (simp add: extractEmailFromAuth_def get_absent)
    subgoal for payload
      by (cases "get_prop payload ''https://api.openai.com/auth''")
         (auto simp: extractPlanFromAuth_def chain_none)
    subgoal for payload authInfo
      by (simp add: extractPlanFromAuth_def chain_absent)
    done
qed

text \<open>
  The theorem at four tokens: one segment only; three segments whose middle one does
  not parse; three segments whose payload is the empty object; three segments whose
  payload is \<^verbatim>\<open>null\<close>, where reading the field throws inside the \<^verbatim>\<open>try\<close>.
\<close>

theorem extract_unknown_on_decode_failure_witness:
  "length (split_dot ''garbage'') \<noteq> 3
   \<and> extractEmailFromAuth ex_b64 ex_parse (ex_auth_with_token ''garbage'') = JStr ''unknown''
   \<and> extractPlanFromAuth ex_b64 ex_parse (ex_auth_with_token ''garbage'') = JStr ''unknown''
   \<and> ex_parse (ex_b64 ''+/x'') = None
   \<and> extractEmailFromAuth ex_b64 ex_parse (ex_auth_with_token ''h.-_x.s'') = JStr ''unknown''
   \<and> extractPlanFromAuth ex_b64 ex_parse (ex_auth_with_token ''h.-_x.s'') = JStr ''unknown''
   \<and> decodeJwtPayload ex_b64 ex_parse ''h.{}.s'' = Inr (JObj [])
   \<and> extractEmailFromAuth ex_b64 ex_parse (ex_auth_with_token ''h.{}.s'') = JStr ''unknown''
   \<and> extractPlanFromAuth ex_b64 ex_parse (ex_auth_with_token ''h.{}.s'') = JStr ''unknown''
   \<and> decodeJwtPayload ex_b64 ex_parse ''h.null.s'' = Inr JNull
   \<and> extractEmailFromAuth ex_b64 ex_parse (ex_auth_with_token ''h.null.s'') = JStr ''unknown''
   \<and> extractPlanFromAuth ex_b64 ex_parse (ex_auth_with_token ''h.null.s'') = JStr ''unknown''"
proof -
  have s1: "split_dot ''garbage'' = [''garbage'']"
    and s2: "split_dot ''h.-_x.s'' = [''h'', ''-_x'', ''s'']"
    and s3: "split_dot ''h.{}.s'' = [''h'', ''{}'', ''s'']"
    and s4: "split_dot ''h.null.s'' = [''h'', ''null'', ''s'']"
    by (simp_all add: Let_def)
  have t: "id_token (tokens (ex_auth_with_token t)) = t" for t
    by (simp add: ex_auth_with_token_def)
  have h1: "length (split_dot (id_token (tokens (ex_auth_with_token ''garbage'')))) \<noteq> 3"
    by (simp add: t s1)
  have p2: "ex_parse (ex_b64 ''+/x'') = None"
    by (simp add: ex_parse_def ex_b64_def)
  have h2: "ex_parse (ex_b64 (replaceAll (CHR ''_'') (CHR ''/'') (replaceAll (CHR ''-'') (CHR ''+'')
      (split_dot (id_token (tokens (ex_auth_with_token ''h.-_x.s''))) ! 1)))) = None"
    by (simp add: t s2 replaceAll_def p2)
  have h3: "decodeJwtPayload ex_b64 ex_parse (id_token (tokens (ex_auth_with_token ''h.{}.s'')))
      = Inr (JObj [])"
    by (simp add: t s3 decodeJwtPayload_def replaceAll_def ex_parse_def ex_b64_def)
  have h4: "decodeJwtPayload ex_b64 ex_parse (id_token (tokens (ex_auth_with_token ''h.null.s'')))
      = Inr JNull"
    by (simp add: t s4 decodeJwtPayload_def replaceAll_def ex_parse_def ex_b64_def)
  have g: "\<forall>v. get_prop (JObj []) k \<noteq> Inr (Some v)"
    and g': "\<forall>v. get_prop JNull k \<noteq> Inr (Some v)" for k
    by simp_all
  from extract_unknown_on_decode_failure[where a = "ex_auth_with_token ''garbage''" and b64dec = ex_b64 and parse = ex_parse] h1
  have c1: "extractEmailFromAuth ex_b64 ex_parse (ex_auth_with_token ''garbage'') = JStr ''unknown''
    \<and> extractPlanFromAuth ex_b64 ex_parse (ex_auth_with_token ''garbage'') = JStr ''unknown''"
    by blast
  from extract_unknown_on_decode_failure[where a = "ex_auth_with_token ''h.-_x.s''" and b64dec = ex_b64 and parse = ex_parse] h2
  have c2: "extractEmailFromAuth ex_b64 ex_parse (ex_auth_with_token ''h.-_x.s'') = JStr ''unknown''
    \<and> extractPlanFromAuth ex_b64 ex_parse (ex_auth_with_token ''h.-_x.s'') = JStr ''unknown''"
    by blast
  from extract_unknown_on_decode_failure[where a = "ex_auth_with_token ''h.{}.s''" and b64dec = ex_b64 and parse = ex_parse] h3 g
  have c3: "extractEmailFromAuth ex_b64 ex_parse (ex_auth_with_token ''h.{}.s'') = JStr ''unknown''
    \<and> extractPlanFromAuth ex_b64 ex_parse (ex_auth_with_token ''h.{}.s'') = JStr ''unknown''"
    by blast
  from extract_unknown_on_decode_failure[where a = "ex_auth_with_token ''h.null.s''" and b64dec = ex_b64 and parse = ex_parse] h4 g'
  have c4: "extractEmailFromAuth ex_b64 ex_parse (ex_auth_with_token ''h.null.s'') = JStr ''unknown''
    \<and> extractPlanFromAuth ex_b64 ex_parse (ex_auth_with_token ''h.null.s'') = JStr ''unknown''"
    by blast
  from h1 c1 p2 c2 h3 c3 h4 c4 show ?thesis
    by (simp add: t)
qed

section \<open>Rotation\<close>



text \<open>
  C10, as it is stated, fails: in the example pool with index 2 the live credential
  file is absent because its directory is missing. \<open>next\<close> and \<open>prev\<close> both die
  with the uncaught \<open>ENOENT\<close> of the write and leave the files as they were: the
  active index has not advanced and no live credential file was created.
\<close>

theorem rotation_without_live_file_counterexample:
  "2 \<le> length (accounts (loadPool (ex_files_no_directory 2)))
   \<and> active_index (loadPool (ex_files_no_directory 2)) = 2
   \<and> codex_auth (ex_files_no_directory 2) = None
   \<and> cmdNext (ex_files_no_directory 2) = (Inl (Uncaught ENOENT), ex_files_no_directory 2)
   \<and> cmdPrev (ex_files_no_directory 2) = (Inl (Uncaught ENOENT), ex_files_no_directory 2)"
proof -
  have n: "length ex_accounts = 3" "ex_accounts \<noteq> []"
    by (simp_all add: ex_accounts_def)
  have nd: "\<not> codex_home (ex_files_no_directory 2)"
    by (simp add: ex_files_no_directory_loaded)
  show ?thesis
    by (simp add: cmdNext_rotate cmdPrev_rotate Let_def js_rem_def n nd
        rotate_to_no_directory ex_files_no_directory_loaded)
qed

text \<open>
  C10, amended. In a pool of two accounts or more (active index in range), when the
  live credential file is absent and the directory that holds it exists, \<open>next\<close> and
  \<open>prev\<close> return: the pool's entries stay as they were (nothing is written back into
  the active slot), the active index advances, and the live credential file then exists
  and holds the stored credential of the new active entry.
\<close>

theorem rotation_without_live_file:
  assumes "2 \<le> length (accounts (loadPool fs))"
    and "0 \<le> active_index (loadPool fs)"
    and "active_index (loadPool fs) < int (length (accounts (loadPool fs)))"
    and "codex_auth fs = None"
    and "codex_home fs"
  shows "(\<exists>out. fst (cmdNext fs) = Inr out)
    \<and> loadPool (snd (cmdNext fs)) = (loadPool fs)
        \<lparr>active_index := (active_index (loadPool fs) + 1) mod int (length (accounts (loadPool fs)))\<rparr>
    \<and> codex_auth (snd (cmdNext fs))
        = Some (auth (accounts (loadPool fs) !
            nat ((active_index (loadPool fs) + 1) mod int (length (accounts (loadPool fs))))))
    \<and> (\<exists>out. fst (cmdPrev fs) = Inr out)
    \<and> loadPool (snd (cmdPrev fs)) = (loadPool fs)
        \<lparr>active_index := (active_index (loadPool fs) - 1) mod int (length (accounts (loadPool fs)))\<rparr>
    \<and> codex_auth (snd (cmdPrev fs))
        = Some (auth (accounts (loadPool fs) !
            nat ((active_index (loadPool fs) - 1) mod int (length (accounts (loadPool fs))))))"
proof -
  note r = assms(1-3) assms(5)
  have sc: "save_current_auth fs (loadPool fs) = loadPool fs"
    using assms(4) by simp
  show ?thesis
    using cmdNext_in_range(1)[OF r] cmdPrev_in_range(1)[OF r]
      loadPool_after[OF cmdNext_in_range(2)[OF r]] loadPool_after[OF cmdPrev_in_range(2)[OF r]]
      cmdNext_in_range(3)[OF r] cmdPrev_in_range(3)[OF r]
    unfolding sc by simp
qed

text \<open>
  The amended claim on the example pool with index 2, the directory there and no live
  file in it: \<open>next\<close> wraps to the first entry and \<open>prev\<close> goes to the second, and the
  live file holds that entry's credential.
\<close>

theorem rotation_without_live_file_witness:
  "codex_auth (ex_files 2 None) = None
   \<and> codex_home (ex_files 2 None)
   \<and> \<not> isl (fst (cmdNext (ex_files 2 None)))
   \<and> loadPool (snd (cmdNext (ex_files 2 None))) = \<lparr>active_index = 0, accounts = ex_accounts\<rparr>
   \<and> codex_auth (snd (cmdNext (ex_files 2 None))) = Some (ex_auth ''acct-1'' ''old'')
   \<and> \<not> isl (fst (cmdPrev (ex_files 2 None)))
   \<and> loadPool (snd (cmdPrev (ex_files 2 None))) = \<lparr>active_index = 1, accounts = ex_accounts\<rparr>
   \<and> codex_auth (snd (cmdPrev (ex_files 2 None))) = Some (ex_auth ''acct-2'' ''w'')"
proof -
  have pre: "2 \<le> length (accounts (loadPool (ex_files 2 None)))"
    "0 \<le> active_index (loadPool (ex_files 2 None))"
    "active_index (loadPool (ex_files 2 None)) < int (length (accounts (loadPool (ex_files 2 None))))"
    "codex_auth (ex_files 2 None) = None"
    "codex_home (ex_files 2 None)"
    by (simp_all add: ex_files_loaded)
  have e: "auth (ex_accounts ! 0) = ex_auth ''acct-1'' ''old''"
    "auth (ex_accounts ! Suc 0) = ex_auth ''acct-2'' ''w''"
    by (simp_all add: ex_accounts_def ex_entry_def)
  from rotation_without_live_file[OF pre] pre(4,5) show ?thesis
    by (auto simp: ex_files_loaded e)
qed

section \<open>Rotation, repeated\<close>





section \<open>Rotation, there and back\<close>

lemma save_current_auth_same:
  assumes "0 \<le> active_index q" "active_index q < int (length (accounts q))"
    and "codex_auth s = Some (auth (accounts q ! nat (active_index q)))"
  shows "save_current_auth s q = q"
  using assms by (simp add: save_current_auth_def at_index_def)

lemma save_current_auth_match:
  assumes "0 \<le> active_index p" "active_index p < int (length (accounts p))"
    and "codex_auth fs = Some live"
    and "account_id (tokens (auth (accounts p ! nat (active_index p)))) = account_id (tokens live)"
  shows "auth (accounts (save_current_auth fs p) ! nat (active_index p)) = live"
  using assms by (simp add: save_current_auth_def at_index_def)

lemma mod_succ_pred:
  fixes i n :: int
  assumes "0 \<le> i" "i < n"
  shows "((i + 1) mod n - 1) mod n = i" and "((i - 1) mod n + 1) mod n = i"
  using assms by (simp_all add: mod_simps)

lemma mod_succ_neq:
  fixes i n :: int
  assumes "0 \<le> i" "i < n" "2 \<le> n"
  shows "(i + 1) mod n \<noteq> i" and "(i - 1) mod n \<noteq> i"
proof -
  show "(i + 1) mod n \<noteq> i"
  proof (cases "i + 1 = n")
    case True
    then show ?thesis using assms by simp
  next
    case False
    then have "(i + 1) mod n = i + 1" using assms by simp
    then show ?thesis by simp
  qed
  show "(i - 1) mod n \<noteq> i"
  proof (cases "i = 0")
    case True
    have "0 < n" using assms by simp
    from zmod_minus1[OF this] True assms show ?thesis by simp
  next
    case False
    then have "(i - 1) mod n = i - 1" using assms by simp
    then show ?thesis by simp
  qed
qed

text \<open>
  The files after a first rotation to another index j, when the live credential was
  of the active entry's account: the slot left behind holds the live credential, and
  the write-back block of the second rotation changes nothing.
\<close>

lemma there_and_back:
  assumes n: "2 \<le> length (accounts (loadPool fs))"
    and i: "0 \<le> active_index (loadPool fs)"
      "active_index (loadPool fs) < int (length (accounts (loadPool fs)))"
    and live: "codex_auth fs = Some live"
    and same: "account_id (tokens (auth (accounts (loadPool fs) ! nat (active_index (loadPool fs)))))
      = account_id (tokens live)"
    and j: "0 \<le> j" "j < int (length (accounts (loadPool fs)))" "j \<noteq> active_index (loadPool fs)"
    and p1: "pool_file fs1 = Some ((save_current_auth fs (loadPool fs))\<lparr>active_index := j\<rparr>)"
    and a1: "codex_auth fs1 = Some (auth (accounts (save_current_auth fs (loadPool fs)) ! nat j))"
  shows "2 \<le> length (accounts (loadPool fs1))"
    and "active_index (loadPool fs1) = j"
    and "length (accounts (loadPool fs1)) = length (accounts (loadPool fs))"
    and "auth (accounts (save_current_auth fs1 (loadPool fs1)) ! nat (active_index (loadPool fs))) = live"
proof -
  let ?p = "save_current_auth fs (loadPool fs)"
  have l1: "loadPool fs1 = ?p\<lparr>active_index := j\<rparr>"
    using p1 by (rule loadPool_after)
  show "2 \<le> length (accounts (loadPool fs1))" "active_index (loadPool fs1) = j"
    "length (accounts (loadPool fs1)) = length (accounts (loadPool fs))"
    using n by (simp_all add: l1)
  have "save_current_auth fs1 (loadPool fs1) = loadPool fs1"
    using j a1 by (intro save_current_auth_same) (simp_all add: l1)
  then have "auth (accounts (save_current_auth fs1 (loadPool fs1)) ! nat (active_index (loadPool fs)))
      = auth (accounts ?p ! nat (active_index (loadPool fs)))"
    by (simp add: l1)
  also have "\<dots> = live"
    by (rule save_current_auth_match[OF i live same])
  finally show "auth (accounts (save_current_auth fs1 (loadPool fs1)) ! nat (active_index (loadPool fs))) = live" .
qed

text \<open>
  C2, as the spec states it, fails: the example pool has ''personal'' (account
  \<open>acct-1\<close>) active, and the live file holds a credential of another account,
  \<open>acct-9\<close>. Both \<open>next\<close> and the following \<open>prev\<close> return, the index is 0 again, but
  the live file now holds the stored credential of ''personal'', not what it held before.
\<close>

theorem next_prev_round_trip_counterexample:
  "2 \<le> length (accounts (loadPool (ex_files 0 (Some (ex_auth ''acct-9'' ''fresh'')))))
   \<and> \<not> isl (fst (cmdNext (ex_files 0 (Some (ex_auth ''acct-9'' ''fresh'')))))
   \<and> \<not> isl (fst (cmdPrev (snd (cmdNext (ex_files 0 (Some (ex_auth ''acct-9'' ''fresh'')))))))
   \<and> active_index (loadPool
        (snd (cmdPrev (snd (cmdNext (ex_files 0 (Some (ex_auth ''acct-9'' ''fresh''))))))))
      = active_index (loadPool (ex_files 0 (Some (ex_auth ''acct-9'' ''fresh''))))
   \<and> codex_auth (snd (cmdPrev (snd (cmdNext (ex_files 0 (Some (ex_auth ''acct-9'' ''fresh'')))))))
      = Some (ex_auth ''acct-1'' ''old'')
   \<and> codex_auth (snd (cmdPrev (snd (cmdNext (ex_files 0 (Some (ex_auth ''acct-9'' ''fresh'')))))))
      \<noteq> codex_auth (ex_files 0 (Some (ex_auth ''acct-9'' ''fresh'')))"
  by (simp add: cmdNext_rotate cmdPrev_rotate rotate_to_def save_current_auth_def at_index_def js_rem_def
      loadPool_def savePool_def writeCodexAuth_def codex_auth_def codex_home_def ex_files_def
      ex_accounts_def ex_entry_def ex_auth_def Let_def)

text \<open>
  C2, amended. In a pool of two accounts or more (active index in range) whose live
  credential file exists and holds a credential of the same account as the active
  entry's stored credential, \<open>next\<close> then \<open>prev\<close>, and \<open>prev\<close> then \<open>next\<close>, both
  return and restore the active index and the content of the live credential file.
\<close>

theorem next_prev_round_trip:
  assumes "2 \<le> length (accounts (loadPool fs))"
    and "0 \<le> active_index (loadPool fs)"
    and "active_index (loadPool fs) < int (length (accounts (loadPool fs)))"
    and "codex_auth fs = Some live"
    and "account_id (tokens (auth (accounts (loadPool fs) ! nat (active_index (loadPool fs)))))
      = account_id (tokens live)"
  shows "(\<exists>out. fst (cmdNext fs) = Inr out)
    \<and> (\<exists>out. fst (cmdPrev (snd (cmdNext fs))) = Inr out)
    \<and> active_index (loadPool (snd (cmdPrev (snd (cmdNext fs))))) = active_index (loadPool fs)
    \<and> codex_auth (snd (cmdPrev (snd (cmdNext fs)))) = Some live
    \<and> (\<exists>out. fst (cmdPrev fs) = Inr out)
    \<and> (\<exists>out. fst (cmdNext (snd (cmdPrev fs))) = Inr out)
    \<and> active_index (loadPool (snd (cmdNext (snd (cmdPrev fs))))) = active_index (loadPool fs)
    \<and> codex_auth (snd (cmdNext (snd (cmdPrev fs)))) = Some live"
proof -
  note r = assms(1-3) codex_auth_home[OF assms(4)]
  let ?n = "int (length (accounts (loadPool fs)))"
  let ?i = "active_index (loadPool fs)"
  have pos: "0 < ?n" and two: "2 \<le> ?n" using assms(1) by linarith+
  note undo = mod_succ_pred[OF assms(2,3)]
  note neq = mod_succ_neq[OF assms(2,3) two]
  \<comment> \<open>next, then prev\<close>
  let ?s = "snd (cmdNext fs)"
  note s = there_and_back[OF assms pos_mod_sign[OF pos] pos_mod_bound[OF pos] neq(1)
      cmdNext_in_range(2,3)[OF r]]
  have rs: "2 \<le> length (accounts (loadPool ?s))" "0 \<le> active_index (loadPool ?s)"
    "active_index (loadPool ?s) < int (length (accounts (loadPool ?s)))" "codex_home ?s"
    using s(1,2,3) pos_mod_sign[OF pos] pos_mod_bound[OF pos]
      codex_auth_home[OF cmdNext_in_range(3)[OF r]] by simp_all
  have s_idx: "active_index (loadPool (snd (cmdPrev ?s))) = ?i"
    using loadPool_after[OF cmdPrev_in_range(2)[OF rs]] s(2,3) undo(1) by simp
  have s_live: "codex_auth (snd (cmdPrev ?s)) = Some live"
    using cmdPrev_in_range(3)[OF rs] s(2,3,4) undo(1) by simp
  \<comment> \<open>prev, then next\<close>
  let ?t = "snd (cmdPrev fs)"
  note t = there_and_back[OF assms pos_mod_sign[OF pos] pos_mod_bound[OF pos] neq(2)
      cmdPrev_in_range(2,3)[OF r]]
  have rt: "2 \<le> length (accounts (loadPool ?t))" "0 \<le> active_index (loadPool ?t)"
    "active_index (loadPool ?t) < int (length (accounts (loadPool ?t)))" "codex_home ?t"
    using t(1,2,3) pos_mod_sign[OF pos] pos_mod_bound[OF pos]
      codex_auth_home[OF cmdPrev_in_range(3)[OF r]] by simp_all
  have t_idx: "active_index (loadPool (snd (cmdNext ?t))) = ?i"
    using loadPool_after[OF cmdNext_in_range(2)[OF rt]] t(2,3) undo(2) by simp
  have t_live: "codex_auth (snd (cmdNext ?t)) = Some live"
    using cmdNext_in_range(3)[OF rt] t(2,3,4) undo(2) by simp
  show ?thesis
    using cmdNext_in_range(1)[OF r] cmdPrev_in_range(1)[OF rs] s_idx s_live
      cmdPrev_in_range(1)[OF r] cmdNext_in_range(1)[OF rt] t_idx t_live
    by simp
qed

text \<open>
  The amended claim on the example pool: ''personal'' (account \<open>acct-1\<close>) is active
  and the live file holds a refreshed credential of \<open>acct-1\<close>.
\<close>

theorem next_prev_round_trip_witness:
  "codex_auth (ex_files 0 (Some (ex_auth ''acct-1'' ''fresh''))) = Some (ex_auth ''acct-1'' ''fresh'')
   \<and> active_index (loadPool (ex_files 0 (Some (ex_auth ''acct-1'' ''fresh'')))) = 0
   \<and> active_index (loadPool
        (snd (cmdPrev (snd (cmdNext (ex_files 0 (Some (ex_auth ''acct-1'' ''fresh'')))))))) = 0
   \<and> codex_auth (snd (cmdPrev (snd (cmdNext (ex_files 0 (Some (ex_auth ''acct-1'' ''fresh'')))))))
      = Some (ex_auth ''acct-1'' ''fresh'')
   \<and> active_index (loadPool
        (snd (cmdNext (snd (cmdPrev (ex_files 0 (Some (ex_auth ''acct-1'' ''fresh'')))))))) = 0
   \<and> codex_auth (snd (cmdNext (snd (cmdPrev (ex_files 0 (Some (ex_auth ''acct-1'' ''fresh'')))))))
      = Some (ex_auth ''acct-1'' ''fresh'')"
proof -
  let ?F = "ex_files 0 (Some (ex_auth ''acct-1'' ''fresh''))"
  have pre: "2 \<le> length (accounts (loadPool ?F))"
    "0 \<le> active_index (loadPool ?F)"
    "active_index (loadPool ?F) < int (length (accounts (loadPool ?F)))"
    "codex_auth ?F = Some (ex_auth ''acct-1'' ''fresh'')"
    by (simp_all add: ex_files_loaded)
  have same: "account_id (tokens (auth (accounts (loadPool ?F) ! nat (active_index (loadPool ?F)))))
      = account_id (tokens (ex_auth ''acct-1'' ''fresh''))"
    by (simp add: ex_files_loaded ex_accounts_def ex_entry_def ex_auth_def)
  from next_prev_round_trip[OF pre same] pre(4) show ?thesis
    by (simp add: ex_files_loaded)
qed

section \<open>Commands that leave the live credential file alone\<close>

lemma cmdAdd_live: "codex_auth (snd (cmdAdd b64dec parse now lbl fs)) = codex_auth fs"
  by (simp add: cmdAdd_def loadCodexAuth_def savePool_def Let_def split: option.splits)

lemma cmdList_files: "snd (cmdList fs) = fs"
  by (simp add: cmdList_def Let_def)

lemma cmdStatus_files: "snd (cmdStatus b64dec parse fs) = fs"
  by (simp add: cmdStatus_def Let_def split: option.splits)

lemma cmdRemove_live: "codex_auth (snd (cmdRemove lbl fs)) = codex_auth fs"
  by (simp add: cmdRemove_def savePool_def Let_def split: option.splits)

lemma cmdAdd_live_file: "live_file (snd (cmdAdd b64dec parse now lbl fs)) = live_file fs"
  by (simp add: cmdAdd_def loadCodexAuth_def savePool_def Let_def split: option.splits)

lemma cmdRemove_live_file: "live_file (snd (cmdRemove lbl fs)) = live_file fs"
  by (simp add: cmdRemove_def savePool_def Let_def split: option.splits)

text \<open>
  C9. Whatever the files and the arguments, and however the command ends, \<open>add\<close>,
  \<open>list\<close>, \<open>status\<close> and \<open>remove\<close> leave the live credential file as it was (absent,
  or with the same content), and its directory too: of the six commands only \<open>next\<close>
  and \<open>prev\<close> call \<open>writeCodexAuth\<close>. This covers a \<open>remove\<close> that deletes the
  active entry or resets the active index.
\<close>

theorem live_file_frame:
  "codex_auth (snd (cmdAdd b64dec parse now lbl fs)) = codex_auth fs
   \<and> codex_auth (snd (cmdList fs)) = codex_auth fs
   \<and> codex_auth (snd (cmdStatus b64dec parse fs)) = codex_auth fs
   \<and> codex_auth (snd (cmdRemove lbl fs)) = codex_auth fs
   \<and> live_file (snd (cmdAdd b64dec parse now lbl fs)) = live_file fs
   \<and> live_file (snd (cmdList fs)) = live_file fs
   \<and> live_file (snd (cmdStatus b64dec parse fs)) = live_file fs
   \<and> live_file (snd (cmdRemove lbl fs)) = live_file fs"
  by (simp add: cmdAdd_live cmdList_files cmdStatus_files cmdRemove_live
      cmdAdd_live_file cmdRemove_live_file)

text \<open>
  The theorem on the example pool with ''spare'' (index 2) active and a live credential
  of its account: removing ''spare'' returns, resets the active index to 0, where
  ''personal'' is, and the live file still holds the credential of ''spare''.
\<close>

theorem live_file_frame_witness:
  "\<not> isl (fst (cmdRemove ''spare'' (ex_files 2 (Some (ex_auth ''acct-3'' ''s'')))))
   \<and> map label (accounts (loadPool (snd (cmdRemove ''spare'' (ex_files 2 (Some (ex_auth ''acct-3'' ''s'')))))))
      = [''personal'', ''work'']
   \<and> active_index (loadPool (snd (cmdRemove ''spare'' (ex_files 2 (Some (ex_auth ''acct-3'' ''s'')))))) = 0
   \<and> codex_auth (snd (cmdRemove ''spare'' (ex_files 2 (Some (ex_auth ''acct-3'' ''s'')))))
      = Some (ex_auth ''acct-3'' ''s'')
   \<and> codex_auth (snd (cmdAdd ex_b64 ex_parse ''2025-02-02'' ''backup''
        (ex_files 2 (Some (ex_auth ''acct-3'' ''s''))))) = Some (ex_auth ''acct-3'' ''s'')"
proof -
  let ?F = "ex_files 2 (Some (ex_auth ''acct-3'' ''s''))"
  have r: "\<not> isl (fst (cmdRemove ''spare'' ?F))"
    "map label (accounts (loadPool (snd (cmdRemove ''spare'' ?F)))) = [''personal'', ''work'']"
    "active_index (loadPool (snd (cmdRemove ''spare'' ?F))) = 0"
    by (simp_all add: cmdRemove_def Let_def savePool_def ex_files_loaded ex_accounts_def
        ex_entry_def)
  from live_file_frame[of ex_b64 ex_parse "''2025-02-02''" "''backup''" ?F]
    live_file_frame[of ex_b64 ex_parse "''2025-02-02''" "''spare''" ?F] r
  show ?thesis
    by (simp add: ex_files_loaded)
qed

section \<open>Removing a label that is not there\<close>

text \<open>
  C6. When the label is not empty and no entry of the pool has it, \<open>remove\<close> dies with
  the "not found in pool" failure and leaves both files, the pool file among them,
  exactly as they were.
\<close>

theorem remove_absent_label:
  assumes "lbl \<noteq> []"
    and "\<forall>x \<in> set (accounts (loadPool fs)). label x \<noteq> lbl"
  shows "cmdRemove lbl fs = (Inl AccountNotFound, fs)"
proof -
  have "findIndex (\<lambda>x. label x = lbl) (accounts (loadPool fs)) = None"
    using assms(2) by (simp add: findIndex_None)
  then show ?thesis
    using assms(1) by (simp add: cmdRemove_def Let_def)
qed

text \<open>The theorem on the example pool, which has no entry ''nobody''.\<close>

theorem remove_absent_label_witness:
  "''nobody'' \<noteq> []
   \<and> map label (accounts (loadPool (ex_files 1 None))) = [''personal'', ''work'', ''spare'']
   \<and> cmdRemove ''nobody'' (ex_files 1 None) = (Inl AccountNotFound, ex_files 1 None)"
proof -
  have ne: "''nobody'' \<noteq> []" by simp
  have labels: "map label (accounts (loadPool (ex_files 1 None))) = [''personal'', ''work'', ''spare'']"
    by (simp add: ex_files_loaded ex_accounts_def ex_entry_def)
  then have absent: "\<forall>x \<in> set (accounts (loadPool (ex_files 1 None))). label x \<noteq> ''nobody''"
    by (simp add: ex_files_loaded ex_accounts_def ex_entry_def)
  from remove_absent_label[OF ne absent] ne labels show ?thesis
    by simp
qed

section \<open>The three cases of add\<close>

lemma cmdAdd_returns:
  assumes "cmdAdd b64dec parse now lbl fs = (Inr out, fs')"
  shows "lbl \<noteq> []" and "\<exists>a. codex_auth fs = Some a"
  using assms
  by (auto simp: cmdAdd_def loadCodexAuth_def split: if_splits option.splits)

lemma cmdAdd_label_case:
  assumes "lbl \<noteq> []" and "codex_auth fs = Some a"
    and "findIndex (\<lambda>x. label x = lbl) (accounts (loadPool fs)) = Some e"
  shows "cmdAdd b64dec parse now lbl fs =
    (Inr [Info_Updated lbl (extractEmailFromAuth b64dec parse a)],
     fs\<lparr>pool_file := Some ((loadPool fs)
       \<lparr>accounts := (accounts (loadPool fs))
          [e := (accounts (loadPool fs) ! e)
             \<lparr>auth := a,
              email := extractEmailFromAuth b64dec parse a,
              plan_type := extractPlanFromAuth b64dec parse a,
              entry_account_id := account_id (tokens a)\<rparr>],
        active_index := int e\<rparr>)\<rparr>)"
  using assms by (simp add: cmdAdd_def loadCodexAuth_def savePool_def Let_def)

lemma cmdAdd_account_case:
  assumes "lbl \<noteq> []" and "codex_auth fs = Some a"
    and "findIndex (\<lambda>x. label x = lbl) (accounts (loadPool fs)) = None"
    and "findIndex (\<lambda>x. account_id (tokens (auth x)) = account_id (tokens a))
           (accounts (loadPool fs)) = Some d"
  shows "cmdAdd b64dec parse now lbl fs =
    (Inr [Warn_AlreadyInPool (label (accounts (loadPool fs) ! d))],
     fs\<lparr>pool_file := Some ((loadPool fs)
       \<lparr>accounts := (accounts (loadPool fs))
          [d := (accounts (loadPool fs) ! d)
             \<lparr>auth := a,
              email := extractEmailFromAuth b64dec parse a,
              plan_type := extractPlanFromAuth b64dec parse a\<rparr>]\<rparr>)\<rparr>)"
  using assms by (simp add: cmdAdd_def loadCodexAuth_def savePool_def Let_def)

lemma cmdAdd_new_case:
  assumes "lbl \<noteq> []" and "codex_auth fs = Some a"
    and "findIndex (\<lambda>x. label x = lbl) (accounts (loadPool fs)) = None"
    and "findIndex (\<lambda>x. account_id (tokens (auth x)) = account_id (tokens a))
           (accounts (loadPool fs)) = None"
  shows "cmdAdd b64dec parse now lbl fs =
    (Inr [Info_Added lbl (extractEmailFromAuth b64dec parse a) (extractPlanFromAuth b64dec parse a)
            (Suc (length (accounts (loadPool fs))))],
     fs\<lparr>pool_file := Some ((loadPool fs)
       \<lparr>accounts := accounts (loadPool fs) @
          [\<lparr>label = lbl,
            email = extractEmailFromAuth b64dec parse a,
            entry_account_id = account_id (tokens a),
            plan_type = extractPlanFromAuth b64dec parse a,
            auth = a,
            added_at = now\<rparr>],
        active_index := int (length (accounts (loadPool fs)))\<rparr>)\<rparr>)"
  using assms by (simp add: cmdAdd_def loadCodexAuth_def savePool_def Let_def)

section \<open>The active index stays in range\<close>

text \<open>A rotation returns only from a pool of two or more, after the write went through.\<close>

lemma cmdNext_returns:
  assumes "cmdNext fs = (Inr out, fs')"
  shows "2 \<le> length (accounts (loadPool fs))" and "codex_home fs"
proof -
  from assms have "length (accounts (loadPool fs)) \<noteq> 0" "length (accounts (loadPool fs)) \<noteq> 1"
    by (auto simp: cmdNext_def Let_def split: if_splits)
  then show "2 \<le> length (accounts (loadPool fs))" by linarith
  from assms show "codex_home fs"
    by (auto simp: cmdNext_def Let_def writeCodexAuth_def split: if_splits option.splits)
qed

lemma cmdPrev_returns:
  assumes "cmdPrev fs = (Inr out, fs')"
  shows "2 \<le> length (accounts (loadPool fs))" and "codex_home fs"
proof -
  from assms have "length (accounts (loadPool fs)) \<noteq> 0" "length (accounts (loadPool fs)) \<noteq> 1"
    by (auto simp: cmdPrev_def Let_def split: if_splits)
  then show "2 \<le> length (accounts (loadPool fs))" by linarith
  from assms show "codex_home fs"
    by (auto simp: cmdPrev_def Let_def writeCodexAuth_def split: if_splits option.splits)
qed

lemma cmdRemove_pool_ok:
  assumes "cmdRemove lbl fs = (Inr out, fs')"
    and "0 \<le> active_index (loadPool fs)"
  shows "pool_ok (loadPool fs')"
proof -
  from assms(1) obtain idx where idx: "findIndex (\<lambda>x. label x = lbl) (accounts (loadPool fs)) = Some idx"
    and ne: "lbl \<noteq> []"
    by (auto simp: cmdRemove_def Let_def split: if_splits option.splits)
  from findIndex_Some[OF idx] have "idx < length (accounts (loadPool fs))" by simp
  with assms idx ne show ?thesis
    by (auto simp: cmdRemove_def Let_def savePool_def pool_ok_def split: if_splits)
qed

lemma cmdAdd_pool_ok:
  assumes "cmdAdd b64dec parse now lbl fs = (Inr out, fs')"
    and "accounts (loadPool fs) \<noteq> []"
    and "0 \<le> active_index (loadPool fs)"
    and "active_index (loadPool fs) < int (length (accounts (loadPool fs)))"
  shows "pool_ok (loadPool fs')"
proof -
  from cmdAdd_returns[OF assms(1)] obtain a where a: "lbl \<noteq> []" "codex_auth fs = Some a"
    by blast
  let ?accs = "accounts (loadPool fs)"
  show ?thesis
  proof (cases "findIndex (\<lambda>x. label x = lbl) ?accs")
    case (Some e)
    from findIndex_Some[OF Some] have "e < length ?accs" by simp
    with cmdAdd_label_case[OF a Some, of b64dec parse now] assms show ?thesis
      by (auto simp: pool_ok_def)
  next
    case None
    show ?thesis
    proof (cases "findIndex (\<lambda>x. account_id (tokens (auth x)) = account_id (tokens a)) ?accs")
      case (Some d)
      with cmdAdd_account_case[OF a None Some, of b64dec parse now] assms show ?thesis
        by (auto simp: pool_ok_def)
    next
      case None': None
      with cmdAdd_new_case[OF a None None', of b64dec parse now] assms show ?thesis
        by (auto simp: pool_ok_def)
    qed
  qed
qed

text \<open>
  C1. Take files whose pool is not empty and has its active index in range. Whenever
  one of \<open>add\<close>, \<open>next\<close>, \<open>prev\<close>, \<open>list\<close>, \<open>status\<close>, \<open>remove\<close> returns (it did
  not die), the pool it leaves has its active index in range again if it is not empty,
  and has active index 0 if it is empty.
\<close>

theorem handlers_keep_index_in_range:
  assumes "accounts (loadPool fs) \<noteq> []"
    and "0 \<le> active_index (loadPool fs)"
    and "active_index (loadPool fs) < int (length (accounts (loadPool fs)))"
  shows "(\<forall>out fs'. cmdAdd b64dec parse now lbl fs = (Inr out, fs') \<longrightarrow> pool_ok (loadPool fs'))
    \<and> (\<forall>out fs'. cmdNext fs = (Inr out, fs') \<longrightarrow> pool_ok (loadPool fs'))
    \<and> (\<forall>out fs'. cmdPrev fs = (Inr out, fs') \<longrightarrow> pool_ok (loadPool fs'))
    \<and> (\<forall>out fs'. cmdList fs = (Inr out, fs') \<longrightarrow> pool_ok (loadPool fs'))
    \<and> (\<forall>out fs'. cmdStatus b64dec parse fs = (Inr out, fs') \<longrightarrow> pool_ok (loadPool fs'))
    \<and> (\<forall>out fs'. cmdRemove lbl fs = (Inr out, fs') \<longrightarrow> pool_ok (loadPool fs'))"
proof -
  have ok: "pool_ok (loadPool fs)"
    using assms by (simp add: pool_ok_def)
  have add: "pool_ok (loadPool fs')" if "cmdAdd b64dec parse now lbl fs = (Inr out, fs')" for out fs'
    by (rule cmdAdd_pool_ok[OF that assms])
  have rem: "pool_ok (loadPool fs')" if "cmdRemove lbl fs = (Inr out, fs')" for out fs'
    by (rule cmdRemove_pool_ok[OF that assms(2)])
  have lst: "pool_ok (loadPool fs')" if "cmdList fs = (Inr out, fs')" for out fs'
    using cmdList_files[of fs] that ok by simp
  have sts: "pool_ok (loadPool fs')" if "cmdStatus b64dec parse fs = (Inr out, fs')" for out fs'
    using cmdStatus_files[of b64dec parse fs] that ok by simp
  have nxt: "pool_ok (loadPool fs')" if "cmdNext fs = (Inr out, fs')" for out fs'
  proof -
    note two = cmdNext_returns(1)[OF that] and home = cmdNext_returns(2)[OF that]
    have pos: "0 < int (length (accounts (loadPool fs)))" using two by linarith
    from loadPool_after[OF cmdNext_in_range(2)[OF two assms(2,3) home]] that
      pos_mod_sign[OF pos] pos_mod_bound[OF pos] assms(1)
    show ?thesis by (simp add: pool_ok_def)
  qed
  have prv: "pool_ok (loadPool fs')" if "cmdPrev fs = (Inr out, fs')" for out fs'
  proof -
    note two = cmdPrev_returns(1)[OF that] and home = cmdPrev_returns(2)[OF that]
    have pos: "0 < int (length (accounts (loadPool fs)))" using two by linarith
    from loadPool_after[OF cmdPrev_in_range(2)[OF two assms(2,3) home]] that
      pos_mod_sign[OF pos] pos_mod_bound[OF pos] assms(1)
    show ?thesis by (simp add: pool_ok_def)
  qed
  from add nxt prv lst sts rem show ?thesis by blast
qed

text \<open>
  The theorem on the example pool with ''work'' (index 1) active and a live credential
  of its account: all six commands return and leave a pool with its index in range; and
  on a pool whose only entry is removed, the index left is 0.
\<close>

theorem handlers_keep_index_in_range_witness:
  "accounts (loadPool (ex_files 1 (Some (ex_auth ''acct-2'' ''fresh'')))) \<noteq> []
   \<and> active_index (loadPool (ex_files 1 (Some (ex_auth ''acct-2'' ''fresh'')))) = 1
   \<and> pool_ok (loadPool (snd (cmdAdd ex_b64 ex_parse ''2025-02-02'' ''backup''
        (ex_files 1 (Some (ex_auth ''acct-2'' ''fresh''))))))
   \<and> pool_ok (loadPool (snd (cmdNext (ex_files 1 (Some (ex_auth ''acct-2'' ''fresh''))))))
   \<and> pool_ok (loadPool (snd (cmdPrev (ex_files 1 (Some (ex_auth ''acct-2'' ''fresh''))))))
   \<and> pool_ok (loadPool (snd (cmdList (ex_files 1 (Some (ex_auth ''acct-2'' ''fresh''))))))
   \<and> pool_ok (loadPool (snd (cmdStatus ex_b64 ex_parse
        (ex_files 1 (Some (ex_auth ''acct-2'' ''fresh''))))))
   \<and> pool_ok (loadPool (snd (cmdRemove ''work'' (ex_files 1 (Some (ex_auth ''acct-2'' ''fresh''))))))
   \<and> pool_ok (loadPool (snd (cmdRemove ''only''
        \<lparr>pool_file = Some \<lparr>active_index = 0, accounts = [ex_entry ''only'' (ex_auth ''acct-1'' ''a'')]\<rparr>,
         live_file = No_File\<rparr>)))
   \<and> accounts (loadPool (snd (cmdRemove ''only''
        \<lparr>pool_file = Some \<lparr>active_index = 0, accounts = [ex_entry ''only'' (ex_auth ''acct-1'' ''a'')]\<rparr>,
         live_file = No_File\<rparr>))) = []"
proof -
  let ?F = "ex_files 1 (Some (ex_auth ''acct-2'' ''fresh''))"
  let ?G = "\<lparr>pool_file = Some \<lparr>active_index = 0, accounts = [ex_entry ''only'' (ex_auth ''acct-1'' ''a'')]\<rparr>,
         live_file = No_File\<rparr>"
  have pre: "accounts (loadPool ?F) \<noteq> []" "0 \<le> active_index (loadPool ?F)"
    "active_index (loadPool ?F) < int (length (accounts (loadPool ?F)))"
    by (simp_all add: ex_files_loaded ex_accounts_def)
  have preG: "accounts (loadPool ?G) \<noteq> []" "0 \<le> active_index (loadPool ?G)"
    "active_index (loadPool ?G) < int (length (accounts (loadPool ?G)))"
    by (simp_all add: loadPool_def)
  have a: "\<not> isl (fst (cmdAdd ex_b64 ex_parse ''2025-02-02'' ''backup'' ?F))"
    by (simp add: cmdAdd_def loadCodexAuth_def Let_def ex_files_loaded ex_accounts_def
        ex_entry_def ex_auth_def)
  have two: "2 \<le> length (accounts (loadPool ?F))" and home: "codex_home ?F"
    by (simp_all add: ex_files_loaded)
  have n: "\<not> isl (fst (cmdNext ?F))" and p: "\<not> isl (fst (cmdPrev ?F))"
    using cmdNext_in_range(1)[OF two pre(2,3) home] cmdPrev_in_range(1)[OF two pre(2,3) home]
    by auto
  have l: "\<not> isl (fst (cmdList ?F))"
    by (simp add: cmdList_def Let_def ex_files_loaded ex_accounts_def)
  have s: "\<not> isl (fst (cmdStatus ex_b64 ex_parse ?F))"
    by (simp add: cmdStatus_def Let_def at_index_def ex_files_loaded ex_accounts_def)
  have r: "\<not> isl (fst (cmdRemove ''work'' ?F))"
    by (simp add: cmdRemove_def Let_def ex_files_loaded ex_accounts_def ex_entry_def)
  have rG: "\<not> isl (fst (cmdRemove ''only'' ?G))"
    "accounts (loadPool (snd (cmdRemove ''only'' ?G))) = []"
    by (simp_all add: cmdRemove_def Let_def loadPool_def savePool_def ex_entry_def)
  note t = handlers_keep_index_in_range[OF pre, of ex_b64 ex_parse "''2025-02-02''" "''backup''"]
    handlers_keep_index_in_range[OF pre, of ex_b64 ex_parse "''2025-02-02''" "''work''"]
    handlers_keep_index_in_range[OF preG, of ex_b64 ex_parse "''2025-02-02''" "''only''"]
  from t(1) returned_eq[OF a] have 1: "pool_ok (loadPool (snd (cmdAdd ex_b64 ex_parse ''2025-02-02'' ''backup'' ?F)))"
    by blast
  from t(1) returned_eq[OF n] have 2: "pool_ok (loadPool (snd (cmdNext ?F)))"
    by blast
  from t(1) returned_eq[OF p] have 3: "pool_ok (loadPool (snd (cmdPrev ?F)))"
    by blast
  from t(1) returned_eq[OF l] have 4: "pool_ok (loadPool (snd (cmdList ?F)))"
    by blast
  from t(1) returned_eq[OF s] have 5: "pool_ok (loadPool (snd (cmdStatus ex_b64 ex_parse ?F)))"
    by blast
  from t(2) returned_eq[OF r] have 6: "pool_ok (loadPool (snd (cmdRemove ''work'' ?F)))"
    by blast
  from t(3) returned_eq[OF rG(1)] have 7: "pool_ok (loadPool (snd (cmdRemove ''only'' ?G)))"
    by blast
  from pre(1) 1 2 3 4 5 6 7 rG(2) show ?thesis
    by (simp add: ex_files_loaded)
qed

section \<open>Adding twice\<close>

lemma cmdAdd_no_growth:
  assumes "lbl \<noteq> []" and "codex_auth fs = Some a"
    and "(\<exists>x\<in>set (accounts (loadPool fs)). label x = lbl)
      \<or> (\<exists>x\<in>set (accounts (loadPool fs)). account_id (tokens (auth x)) = account_id (tokens a))"
  shows "\<exists>out fs'. cmdAdd b64dec parse now lbl fs = (Inr out, fs')
    \<and> length (accounts (loadPool fs')) = length (accounts (loadPool fs))"
proof (cases "findIndex (\<lambda>x. label x = lbl) (accounts (loadPool fs))")
  case (Some e)
  show ?thesis
    by (simp add: cmdAdd_label_case[OF assms(1,2) Some])
next
  case None
  then have "\<not> (\<exists>x\<in>set (accounts (loadPool fs)). label x = lbl)"
    by (simp add: findIndex_None)
  with assms(3) obtain d where
    d: "findIndex (\<lambda>x. account_id (tokens (auth x)) = account_id (tokens a)) (accounts (loadPool fs)) = Some d"
    using findIndex_found[of "accounts (loadPool fs)" "\<lambda>x. account_id (tokens (auth x)) = account_id (tokens a)"]
    by blast
  show ?thesis
    by (simp add: cmdAdd_account_case[OF assms(1,2) None d])
qed

text \<open>
  C5. When \<open>add\<close> with a label returns, the live credential file is as it was, and
  \<open>add\<close> with the same label, run next on the files the first call left, returns too
  and leaves a pool of the same size: it updates an entry in place and appends nothing.
\<close>

theorem add_twice_same_size:
  assumes "cmdAdd b64dec parse now1 lbl fs = (Inr out1, fs1)"
  shows "codex_auth fs1 = codex_auth fs
    \<and> (\<exists>out2 fs2. cmdAdd b64dec parse now2 lbl fs1 = (Inr out2, fs2)
        \<and> length (accounts (loadPool fs2)) = length (accounts (loadPool fs1)))"
proof -
  from cmdAdd_returns[OF assms] obtain a where a: "lbl \<noteq> []" "codex_auth fs = Some a"
    by blast
  have live: "codex_auth fs1 = codex_auth fs"
    using cmdAdd_live[of b64dec parse now1 lbl fs] assms by simp
  let ?accs = "accounts (loadPool fs)"
  have found: "(\<exists>x\<in>set (accounts (loadPool fs1)). label x = lbl)
      \<or> (\<exists>x\<in>set (accounts (loadPool fs1)). account_id (tokens (auth x)) = account_id (tokens a))"
  proof (cases "findIndex (\<lambda>x. label x = lbl) ?accs")
    case (Some e)
    from findIndex_Some[OF Some] have e: "e < length ?accs" "label (?accs ! e) = lbl" by simp_all
    from cmdAdd_label_case[OF a Some, of b64dec parse now1] assms
    have "accounts (loadPool fs1) ! e = (?accs ! e)\<lparr>auth := a,
              email := extractEmailFromAuth b64dec parse a,
              plan_type := extractPlanFromAuth b64dec parse a,
              entry_account_id := account_id (tokens a)\<rparr>"
      and "e < length (accounts (loadPool fs1))"
      using e(1) by auto
    then have "accounts (loadPool fs1) ! e \<in> set (accounts (loadPool fs1))"
      and "label (accounts (loadPool fs1) ! e) = lbl"
      using e(2) nth_mem[of e "accounts (loadPool fs1)"] by simp_all
    then show ?thesis by blast
  next
    case None
    show ?thesis
    proof (cases "findIndex (\<lambda>x. account_id (tokens (auth x)) = account_id (tokens a)) ?accs")
      case (Some d)
      from findIndex_Some[OF Some] have d: "d < length ?accs" by simp
      from cmdAdd_account_case[OF a None Some, of b64dec parse now1] assms
      have "auth (accounts (loadPool fs1) ! d) = a"
        and "d < length (accounts (loadPool fs1))"
        using d by auto
      then have "accounts (loadPool fs1) ! d \<in> set (accounts (loadPool fs1))"
        and "account_id (tokens (auth (accounts (loadPool fs1) ! d))) = account_id (tokens a)"
        using nth_mem[of d "accounts (loadPool fs1)"] by simp_all
      then show ?thesis by blast
    next
      case None': None
      from cmdAdd_new_case[OF a None None', of b64dec parse now1] assms
      have "\<exists>x\<in>set (accounts (loadPool fs1)). label x = lbl"
        by auto
      then show ?thesis by blast
    qed
  qed
  from cmdAdd_no_growth[OF a(1) _ found, of b64dec parse now2] live a(2)
  show ?thesis by simp
qed

text \<open>
  The theorem on the example pool with a live credential of a new account: the first
  \<open>add\<close> of ''backup'' appends a fourth entry, the second one leaves four.
\<close>

theorem add_twice_same_size_witness:
  "\<not> isl (fst (cmdAdd ex_b64 ex_parse ''2025-02-02'' ''backup''
      (ex_files 1 (Some (ex_auth ''acct-7'' ''n'')))))
   \<and> length (accounts (loadPool (snd (cmdAdd ex_b64 ex_parse ''2025-02-02'' ''backup''
      (ex_files 1 (Some (ex_auth ''acct-7'' ''n''))))))) = 4
   \<and> \<not> isl (fst (cmdAdd ex_b64 ex_parse ''2025-03-03'' ''backup''
      (snd (cmdAdd ex_b64 ex_parse ''2025-02-02'' ''backup''
        (ex_files 1 (Some (ex_auth ''acct-7'' ''n'')))))))
   \<and> length (accounts (loadPool (snd (cmdAdd ex_b64 ex_parse ''2025-03-03'' ''backup''
      (snd (cmdAdd ex_b64 ex_parse ''2025-02-02'' ''backup''
        (ex_files 1 (Some (ex_auth ''acct-7'' ''n''))))))))) = 4"
proof -
  let ?F = "ex_files 1 (Some (ex_auth ''acct-7'' ''n''))"
  let ?S = "snd (cmdAdd ex_b64 ex_parse ''2025-02-02'' ''backup'' ?F)"
  have a: "\<not> isl (fst (cmdAdd ex_b64 ex_parse ''2025-02-02'' ''backup'' ?F))"
    and n: "length (accounts (loadPool ?S)) = 4"
    by (simp_all add: cmdAdd_def loadCodexAuth_def savePool_def Let_def ex_files_loaded
        ex_accounts_def ex_entry_def ex_auth_def)
  from add_twice_same_size[OF returned_eq[OF a], of "''2025-03-03''"] a n show ?thesis
    by auto
qed

section \<open>Adding, then listing\<close>

text \<open>The rows \<open>list\<close> marks as active are the one row of the active entry.\<close>

lemma cmdList_active_row:
  assumes "0 \<le> active_index (loadPool fs)"
    and "active_index (loadPool fs) < int (length (accounts (loadPool fs)))"
  shows "\<exists>rows. fst (cmdList fs) = Inr rows
    \<and> (\<forall>l e p a. List_Row True l e p a \<in> set rows \<longleftrightarrow>
          l = label (accounts (loadPool fs) ! nat (active_index (loadPool fs)))
        \<and> e = email (accounts (loadPool fs) ! nat (active_index (loadPool fs)))
        \<and> p = plan_type (accounts (loadPool fs) ! nat (active_index (loadPool fs)))
        \<and> a = take 8 (entry_account_id (accounts (loadPool fs) ! nat (active_index (loadPool fs)))))"
proof -
  let ?p = "loadPool fs"
  have ne: "length (accounts ?p) \<noteq> 0" using assms by auto
  have idx: "int i = active_index ?p \<longleftrightarrow> i = nat (active_index ?p)" for i
    using assms(1) by auto
  have "nat (active_index ?p) < length (accounts ?p)"
    using assms by simp
  then show ?thesis
    using ne unfolding cmdList_def Let_def
    by (auto simp: idx image_iff)
qed

text \<open>
  C4, as the spec states it, fails in the case it names last: the example pool has
  ''personal'' (index 0) active, ''work'' holds account \<open>acct-2\<close>, and the live file
  holds a credential of \<open>acct-2\<close>. \<open>add\<close> of the new label ''backup'' returns, the
  pool's labels are what they were, none of them ''backup'', the active index is still
  0, and \<open>list\<close> marks ''personal''.
\<close>

theorem add_makes_label_active_counterexample:
  "''backup'' \<noteq> []
   \<and> \<not> isl (fst (cmdAdd ex_b64 ex_parse ''2025-02-02'' ''backup''
        (ex_files 0 (Some (ex_auth ''acct-2'' ''fresh'')))))
   \<and> map label (accounts (loadPool (snd (cmdAdd ex_b64 ex_parse ''2025-02-02'' ''backup''
        (ex_files 0 (Some (ex_auth ''acct-2'' ''fresh'')))))))
      = [''personal'', ''work'', ''spare'']
   \<and> active_index (loadPool (snd (cmdAdd ex_b64 ex_parse ''2025-02-02'' ''backup''
        (ex_files 0 (Some (ex_auth ''acct-2'' ''fresh'')))))) = 0
   \<and> fst (cmdList (snd (cmdAdd ex_b64 ex_parse ''2025-02-02'' ''backup''
        (ex_files 0 (Some (ex_auth ''acct-2'' ''fresh''))))))
      = Inr [List_Header 3,
             List_Row True ''personal'' (JStr ''unknown'') (JStr ''unknown'') ''acct-1'',
             List_Row False ''work'' (JStr ''unknown'') (JStr ''unknown'') ''acct-2'',
             List_Row False ''spare'' (JStr ''unknown'') (JStr ''unknown'') ''acct-3'']"
proof -
  let ?G = "ex_files 0 (Some (ex_auth ''acct-2'' ''fresh''))"
  have u: "extractEmailFromAuth ex_b64 ex_parse (ex_auth ''acct-2'' ''fresh'') = JStr ''unknown''"
    "extractPlanFromAuth ex_b64 ex_parse (ex_auth ''acct-2'' ''fresh'') = JStr ''unknown''"
    by (simp_all add: extractEmailFromAuth_def extractPlanFromAuth_def decodeJwtPayload_def
        replaceAll_def ex_b64_def ex_parse_def ex_auth_def Let_def)
  have upto: "[0..<3] = [0, 1, 2]"
    by (simp add: upt_rec)
  have ne: "''backup'' \<noteq> []" by simp
  have live: "codex_auth ?G = Some (ex_auth ''acct-2'' ''fresh'')"
    by (simp add: ex_files_loaded)
  have f1: "findIndex (\<lambda>x. label x = ''backup'') (accounts (loadPool ?G)) = None"
    by (simp add: ex_files_loaded ex_accounts_def ex_entry_def)
  have f2: "findIndex (\<lambda>x. account_id (tokens (auth x)) = account_id (tokens (ex_auth ''acct-2'' ''fresh'')))
      (accounts (loadPool ?G)) = Some 1"
    by (simp add: ex_files_loaded ex_accounts_def ex_entry_def ex_auth_def)
  note r = cmdAdd_account_case[OF ne live f1 f2, of ex_b64 ex_parse "''2025-02-02''"]
  have p: "loadPool (snd (cmdAdd ex_b64 ex_parse ''2025-02-02'' ''backup'' ?G))
    = \<lparr>active_index = 0, accounts =
        [ex_entry ''personal'' (ex_auth ''acct-1'' ''old''),
         ex_entry ''work'' (ex_auth ''acct-2'' ''fresh''),
         ex_entry ''spare'' (ex_auth ''acct-3'' ''s'')]\<rparr>"
    unfolding r by (simp add: u ex_files_loaded ex_accounts_def ex_entry_def) (simp add: ex_auth_def)
  have l: "fst (cmdList (snd (cmdAdd ex_b64 ex_parse ''2025-02-02'' ''backup'' ?G)))
      = Inr [List_Header 3,
             List_Row True ''personal'' (JStr ''unknown'') (JStr ''unknown'') ''acct-1'',
             List_Row False ''work'' (JStr ''unknown'') (JStr ''unknown'') ''acct-2'',
             List_Row False ''spare'' (JStr ''unknown'') (JStr ''unknown'') ''acct-3'']"
    unfolding cmdList_def p by (simp add: upto Let_def ex_entry_def) (simp add: ex_auth_def)
  show ?thesis
    unfolding l p unfolding r by (simp add: ex_entry_def)
qed

text \<open>
  C4, amended. Let \<open>add\<close> with a label return. If an entry already had the label, or no
  entry holds a credential of the live credential's account, then the pool has an entry
  with the label at the active index, and a \<open>list\<close> run next marks that label, and
  no other, as active. In the remaining case (no entry has the label, some entry holds
  a credential of the live credential's account) the pool keeps its labels and its
  active index.
\<close>

theorem add_makes_label_active:
  assumes "cmdAdd b64dec parse now lbl fs = (Inr out, fs')"
    and "codex_auth fs = Some live"
  shows "((\<exists>x\<in>set (accounts (loadPool fs)). label x = lbl)
        \<or> (\<forall>x\<in>set (accounts (loadPool fs)).
              account_id (tokens (auth x)) \<noteq> account_id (tokens live))
      \<longrightarrow> 0 \<le> active_index (loadPool fs')
        \<and> active_index (loadPool fs') < int (length (accounts (loadPool fs')))
        \<and> label (accounts (loadPool fs') ! nat (active_index (loadPool fs'))) = lbl
        \<and> (\<exists>rows. fst (cmdList fs') = Inr rows
            \<and> (\<exists>e p a. List_Row True lbl e p a \<in> set rows)
            \<and> (\<forall>l e p a. List_Row True l e p a \<in> set rows \<longrightarrow> l = lbl)))
    \<and> ((\<forall>x\<in>set (accounts (loadPool fs)). label x \<noteq> lbl)
        \<and> (\<exists>x\<in>set (accounts (loadPool fs)).
              account_id (tokens (auth x)) = account_id (tokens live))
      \<longrightarrow> map label (accounts (loadPool fs')) = map label (accounts (loadPool fs))
        \<and> active_index (loadPool fs') = active_index (loadPool fs))"
proof -
  from cmdAdd_returns[OF assms(1)] assms(2) have a: "lbl \<noteq> []" "codex_auth fs = Some live"
    by simp_all
  let ?accs = "accounts (loadPool fs)"
  let ?byid = "\<lambda>x. account_id (tokens (auth x)) = account_id (tokens live)"
  have active: "0 \<le> active_index (loadPool fs')
        \<and> active_index (loadPool fs') < int (length (accounts (loadPool fs')))
        \<and> label (accounts (loadPool fs') ! nat (active_index (loadPool fs'))) = lbl"
    if "(\<exists>x\<in>set ?accs. label x = lbl) \<or> (\<forall>x\<in>set ?accs. \<not> ?byid x)"
  proof (cases "findIndex (\<lambda>x. label x = lbl) ?accs")
    case (Some e)
    from findIndex_Some[OF Some] have e: "e < length ?accs" "label (?accs ! e) = lbl" by simp_all
    from cmdAdd_label_case[OF a Some, of b64dec parse now] assms(1) e show ?thesis
      by auto
  next
    case None
    then have "\<not> (\<exists>x\<in>set ?accs. label x = lbl)" by (simp add: findIndex_None)
    with that have "findIndex ?byid ?accs = None" by (simp add: findIndex_None)
    from cmdAdd_new_case[OF a None this, of b64dec parse now] assms(1) show ?thesis
      by auto
  qed
  have listed: "\<exists>rows. fst (cmdList fs') = Inr rows
            \<and> (\<exists>e p a. List_Row True lbl e p a \<in> set rows)
            \<and> (\<forall>l e p a. List_Row True l e p a \<in> set rows \<longrightarrow> l = lbl)"
    if "(\<exists>x\<in>set ?accs. label x = lbl) \<or> (\<forall>x\<in>set ?accs. \<not> ?byid x)"
  proof -
    from active[OF that] have r: "0 \<le> active_index (loadPool fs')"
      "active_index (loadPool fs') < int (length (accounts (loadPool fs')))"
      and l: "label (accounts (loadPool fs') ! nat (active_index (loadPool fs'))) = lbl"
      by simp_all
    from cmdList_active_row[OF r] l show ?thesis
      by metis
  qed
  have kept: "map label (accounts (loadPool fs')) = map label ?accs
        \<and> active_index (loadPool fs') = active_index (loadPool fs)"
    if "\<forall>x\<in>set ?accs. label x \<noteq> lbl" and "\<exists>x\<in>set ?accs. ?byid x"
  proof -
    from that(1) have n: "findIndex (\<lambda>x. label x = lbl) ?accs = None"
      by (simp add: findIndex_None)
    from findIndex_found[of ?accs ?byid] that(2) obtain d where d: "findIndex ?byid ?accs = Some d"
      by blast
    from findIndex_Some[OF d] have "d < length ?accs" by simp
    with cmdAdd_account_case[OF a n d, of b64dec parse now] assms(1) show ?thesis
      by (auto simp: map_update_same)
  qed
  from active listed kept show ?thesis by blast
qed

text \<open>
  The amended claim on the example pool: with a live credential of a new account,
  \<open>add\<close> of ''backup'' makes ''backup'' the active entry; with a live credential of
  the account that ''work'' holds, \<open>add\<close> of ''backup'' keeps labels and index.
\<close>

theorem add_makes_label_active_witness:
  "\<not> isl (fst (cmdAdd ex_b64 ex_parse ''2025-02-02'' ''backup''
      (ex_files 1 (Some (ex_auth ''acct-7'' ''n'')))))
   \<and> label (accounts (loadPool (snd (cmdAdd ex_b64 ex_parse ''2025-02-02'' ''backup''
          (ex_files 1 (Some (ex_auth ''acct-7'' ''n''))))))
        ! nat (active_index (loadPool (snd (cmdAdd ex_b64 ex_parse ''2025-02-02'' ''backup''
          (ex_files 1 (Some (ex_auth ''acct-7'' ''n'')))))))) = ''backup''
   \<and> (\<exists>rows e p a. fst (cmdList (snd (cmdAdd ex_b64 ex_parse ''2025-02-02'' ''backup''
          (ex_files 1 (Some (ex_auth ''acct-7'' ''n'')))))) = Inr rows
        \<and> List_Row True ''backup'' e p a \<in> set rows)
   \<and> \<not> isl (fst (cmdAdd ex_b64 ex_parse ''2025-02-02'' ''backup''
      (ex_files 0 (Some (ex_auth ''acct-2'' ''fresh'')))))
   \<and> map label (accounts (loadPool (snd (cmdAdd ex_b64 ex_parse ''2025-02-02'' ''backup''
        (ex_files 0 (Some (ex_auth ''acct-2'' ''fresh'')))))))
      = map label (accounts (loadPool (ex_files 0 (Some (ex_auth ''acct-2'' ''fresh'')))))
   \<and> active_index (loadPool (snd (cmdAdd ex_b64 ex_parse ''2025-02-02'' ''backup''
        (ex_files 0 (Some (ex_auth ''acct-2'' ''fresh'')))))) = 0"
proof -
  let ?F = "ex_files 1 (Some (ex_auth ''acct-7'' ''n''))"
  let ?G = "ex_files 0 (Some (ex_auth ''acct-2'' ''fresh''))"
  have ids: "map (\<lambda>x. account_id (tokens (auth x))) ex_accounts = [''acct-1'', ''acct-2'', ''acct-3'']"
    and labels: "map label ex_accounts = [''personal'', ''work'', ''spare'']"
    by (simp_all add: ex_accounts_def ex_entry_def ex_auth_def)
  have id7: "account_id (tokens (ex_auth ''acct-7'' ''n'')) = ''acct-7''"
    and id2: "account_id (tokens (ex_auth ''acct-2'' ''fresh'')) = ''acct-2''"
    by (simp_all add: ex_auth_def)
  have liveF: "codex_auth ?F = Some (ex_auth ''acct-7'' ''n'')"
    and liveG: "codex_auth ?G = Some (ex_auth ''acct-2'' ''fresh'')"
    by (simp_all add: ex_files_loaded)
  have "\<forall>i \<in> set (map (\<lambda>x. account_id (tokens (auth x))) ex_accounts). i \<noteq> ''acct-7''"
    unfolding ids by simp
  then have hF: "(\<exists>x\<in>set (accounts (loadPool ?F)). label x = ''backup'')
      \<or> (\<forall>x\<in>set (accounts (loadPool ?F)).
            account_id (tokens (auth x)) \<noteq> account_id (tokens (ex_auth ''acct-7'' ''n'')))"
    by (auto simp: ex_files_loaded id7)
  have "\<forall>l \<in> set (map label ex_accounts). l \<noteq> ''backup''"
    and "\<exists>i \<in> set (map (\<lambda>x. account_id (tokens (auth x))) ex_accounts). i = ''acct-2''"
    unfolding ids labels by simp_all
  then have hG: "(\<forall>x\<in>set (accounts (loadPool ?G)). label x \<noteq> ''backup'')
      \<and> (\<exists>x\<in>set (accounts (loadPool ?G)).
            account_id (tokens (auth x)) = account_id (tokens (ex_auth ''acct-2'' ''fresh'')))"
    by (auto simp: ex_files_loaded id2)
  have aF: "\<not> isl (fst (cmdAdd ex_b64 ex_parse ''2025-02-02'' ''backup'' ?F))"
    using liveF by (simp add: cmdAdd_def loadCodexAuth_def Let_def split: option.splits)
  have aG: "\<not> isl (fst (cmdAdd ex_b64 ex_parse ''2025-02-02'' ''backup'' ?G))"
    using liveG by (simp add: cmdAdd_def loadCodexAuth_def Let_def split: option.splits)
  from add_makes_label_active[OF returned_eq[OF aF] liveF] hF
  have 1: "label (accounts (loadPool (snd (cmdAdd ex_b64 ex_parse ''2025-02-02'' ''backup'' ?F)))
        ! nat (active_index (loadPool (snd (cmdAdd ex_b64 ex_parse ''2025-02-02'' ''backup'' ?F)))))
      = ''backup''"
    and 2: "\<exists>rows e p a. fst (cmdList (snd (cmdAdd ex_b64 ex_parse ''2025-02-02'' ''backup'' ?F))) = Inr rows
        \<and> List_Row True ''backup'' e p a \<in> set rows"
    by blast+
  from add_makes_label_active[OF returned_eq[OF aG] liveG] hG
  have 3: "map label (accounts (loadPool (snd (cmdAdd ex_b64 ex_parse ''2025-02-02'' ''backup'' ?G))))
      = map label (accounts (loadPool ?G))
    \<and> active_index (loadPool (snd (cmdAdd ex_b64 ex_parse ''2025-02-02'' ''backup'' ?G)))
      = active_index (loadPool ?G)"
    by blast
  from aF 1 2 aG 3 show ?thesis
    by (simp add: ex_files_loaded)
qed

end
